theory Spec2Isabelle
  imports Main "HOL-Library.Sublist" "HOL-Library.AList"
begin

section \<open>Python strings\<close>

text \<open>
  A Python \<open>str\<close> is modelled as a \<open>string\<close>, one \<open>char\<close> per code point. The
  model therefore covers text whose code points lie below 256; on that range the
  character classes below are exactly Python's: \<open>str.isspace\<close> (also the regex class
  \<open>\s\<close>) holds for 9-13, 28-32, 133 and 160, and the regex class \<open>\d\<close> holds for the
  ASCII digits only.
\<close>

definition newline :: char where
  "newline = CHR 0x0A"

definition isspace :: "char \<Rightarrow> bool" where
  "isspace c = ((of_char c :: nat) \<in> {9, 10, 11, 12, 13, 28, 29, 30, 31, 32, 133, 160})"

definition isdigit :: "char \<Rightarrow> bool" where
  "isdigit c = (48 \<le> (of_char c :: nat) \<and> (of_char c :: nat) \<le> 57)"

definition lstrip :: "string \<Rightarrow> string" where
  "lstrip s = dropWhile isspace s"

definition rstrip :: "string \<Rightarrow> string" where
  "rstrip s = rev (dropWhile isspace (rev s))"

text \<open>\<open>s.strip()\<close>: whitespace removed at both ends.\<close>

definition strip :: "string \<Rightarrow> string" where
  "strip s = rstrip (lstrip s)"

text \<open>
  \<open>s.split(c)\<close> for a one-character separator: never empty, \<open>''.split(c) = ['']\<close>.
  The split of the rest is never empty either, so the first branch of the \<open>case\<close> is
  not taken.
\<close>

fun split_on :: "char \<Rightarrow> string \<Rightarrow> string list" where
  "split_on c [] = [[]]"
| "split_on c (x # xs) =
     (if x = c then [] # split_on c xs
      else (case split_on c xs of [] \<Rightarrow> [[x]] | l # ls \<Rightarrow> (x # l) # ls))"

text \<open>\<open>sep.join(parts)\<close> for a one-character separator.\<close>

fun join_with :: "char \<Rightarrow> string list \<Rightarrow> string" where
  "join_with c [] = []"
| "join_with c [p] = p"
| "join_with c (p # q # ps) = p @ c # join_with c (q # ps)"

definition startswith :: "string \<Rightarrow> string \<Rightarrow> bool" where
  "startswith s p = (take (length p) s = p)"

definition endswith :: "string \<Rightarrow> string \<Rightarrow> bool" where
  "endswith s p = (length p \<le> length s \<and> drop (length s - length p) s = p)"

text \<open>\<open>sub in s\<close>: \<open>sub\<close> occurs in \<open>s\<close> as a contiguous run.\<close>

fun contains :: "string \<Rightarrow> string \<Rightarrow> bool" where
  "contains [] sub = (sub = [])"
| "contains (x # xs) sub = (startswith (x # xs) sub \<or> contains xs sub)"

text \<open>
  \<open>zeile.split(': ', 1)[1]\<close>: what follows the first \<open>': '\<close> of the line. Without a
  \<open>': '\<close> the split has one element and the index raises \<open>IndexError\<close> (\<open>None\<close> here).
\<close>

fun split_colon_1 :: "string \<Rightarrow> string option" where
  "split_colon_1 [] = None"
| "split_colon_1 (x # xs) =
     (if startswith (x # xs) '': '' then Some (drop 2 (x # xs)) else split_colon_1 xs)"

section \<open>The transcript parser (parse\_scene\_transkript.py)\<close>

text \<open>
  The exceptions of the parser. \<open>OSError\<close> stands for what reading an existing path can
  raise besides a decoding error (a directory, a file without read permission).
\<close>

datatype py_error = FileNotFoundError | OSError | UnicodeDecodeError | IndexError

record segment =
  seg_start :: string
  seg_ende :: string
  seg_text :: string

record parser =
  metadata :: "(string \<times> string) list"
  volltext :: string
  zeitgestempelte_segmente :: "segment list"

text \<open>The regex group \<open>\d{2}:\d{2}\.\d{2}\<close>, matched against exactly eight characters.\<close>

definition zeit_match :: "string \<Rightarrow> bool" where
  "zeit_match s =
     (case s of
        [a, b, c, d, e, f, g, h] \<Rightarrow>
          isdigit a \<and> isdigit b \<and> c = CHR '':'' \<and> isdigit d \<and> isdigit e \<and>
          f = CHR ''.'' \<and> isdigit g \<and> isdigit h
      | _ \<Rightarrow> False)"

text \<open>
  \<open>re.match(r'\[(\d{2}:\d{2}\.\d{2}) - (\d{2}:\d{2}\.\d{2})\] (.+)', zeile)\<close>: the
  match is anchored at the start of the line; the first 22 characters have a fixed
  layout; the greedy \<open>.+\<close> takes every following character up to the first newline and
  needs at least one. The result is the three groups.
\<close>

definition segment_match :: "string \<Rightarrow> (string \<times> string \<times> string) option" where
  "segment_match zeile =
     (let g1 = take 8 (drop 1 zeile);
          g2 = take 8 (drop 12 zeile);
          g3 = takeWhile (\<lambda>c. c \<noteq> newline) (drop 22 zeile)
      in if take 1 zeile = ''['' \<and> zeit_match g1 \<and> take 3 (drop 9 zeile) = '' - '' \<and>
            zeit_match g2 \<and> take 2 (drop 20 zeile) = ''] '' \<and> g3 \<noteq> []
         then Some (g1, g2, g3) else None)"

text \<open>
  The metadata loop over \<open>zeilen[:10]\<close>. Each of the five known prefixes stores what
  follows the first \<open>': '\<close> under its key; a line with the prefix and no \<open>': '\<close> raises
  \<open>IndexError\<close>. Every other line is skipped.
\<close>

definition audio_prefix :: string where
  "audio_prefix = ''Transkript f'' @ [CHR 0xFC] @ ''r:''"

definition metadata_key :: "string \<Rightarrow> string option" where
  "metadata_key zeile =
     (if startswith zeile audio_prefix then Some ''audio_file''
      else if startswith zeile ''Datum:'' then Some ''datum''
      else if startswith zeile ''Sprache:'' then Some ''sprache''
      else if startswith zeile ''Konfidenz:'' then Some ''konfidenz''
      else if startswith zeile ''Dauer:'' then Some ''dauer''
      else None)"

fun parse_metadata ::
  "string list \<Rightarrow> (string \<times> string) list \<Rightarrow> py_error + (string \<times> string) list" where
  "parse_metadata [] md = Inr md"
| "parse_metadata (zeile # rest) md =
     (case metadata_key zeile of
        None \<Rightarrow> parse_metadata rest md
      | Some k \<Rightarrow>
          (case split_colon_1 zeile of
             None \<Rightarrow> Inl IndexError
           | Some v \<Rightarrow> parse_metadata rest (AList.update k v md)))"

text \<open>The second loop: the two section flags, the full text and the segments.\<close>

record scan_state =
  volltext_start :: bool
  zeitstempel_start :: bool
  st_volltext :: string
  st_segmente :: "segment list"

definition scan_zeile :: "string \<Rightarrow> scan_state \<Rightarrow> scan_state" where
  "scan_zeile zeile st =
     (if strip zeile = ''VOLLTEXT:'' then st\<lparr>volltext_start := True\<rparr>
      else if strip zeile = ''ZEITGESTEMPELTE SEGMENTE:''
        then st\<lparr>volltext_start := False, zeitstempel_start := True\<rparr>
      else if startswith zeile ''====='' then st
      else
        (let st1 = (if volltext_start st \<and> strip zeile \<noteq> []
                    then st\<lparr>st_volltext := strip zeile\<rparr> else st)
         in if zeitstempel_start st1 \<and> strip zeile \<noteq> []
            then (case segment_match zeile of
                    Some (start_zeit, ende_zeit, txt) \<Rightarrow>
                      st1\<lparr>st_segmente := st_segmente st1 @
                        [\<lparr>seg_start = start_zeit, seg_ende = ende_zeit, seg_text = strip txt\<rparr>]\<rparr>
                  | None \<Rightarrow> st1)
            else st1))"

fun scan_zeilen :: "string list \<Rightarrow> scan_state \<Rightarrow> scan_state" where
  "scan_zeilen [] st = st"
| "scan_zeilen (zeile # rest) st = scan_zeilen rest (scan_zeile zeile st)"

definition scan_init :: scan_state where
  "scan_init = \<lparr>volltext_start = False, zeitstempel_start = False,
                 st_volltext = [], st_segmente = []\<rparr>"

text \<open>
  \<open>_parse_transkript\<close> on the decoded text of an existing file: the text is stripped
  and split at newlines, the first ten lines feed the metadata, all lines feed the scan.
\<close>

definition parse_inhalt :: "string \<Rightarrow> py_error + parser" where
  "parse_inhalt inhalt =
     (let zeilen = split_on newline (strip inhalt)
      in case parse_metadata (take 10 zeilen) [] of
           Inl e \<Rightarrow> Inl e
         | Inr md \<Rightarrow>
             (let st = scan_zeilen zeilen scan_init
              in Inr \<lparr>metadata = md, volltext = st_volltext st,
                      zeitgestempelte_segmente = st_segmente st\<rparr>))"

text \<open>
  The file system as far as the parser reads it. A path does not exist (\<open>None\<close>), or it
  exists and \<open>read_text(encoding='utf-8')\<close> either fails to read it, or reads bytes that
  are not valid UTF-8, or returns a text: the decoded bytes with every line ending
  translated to a newline.
\<close>

datatype file_content = Unreadable | NotUtf8 | Utf8Text string

text \<open>
  \<open>SceneTranskriptParser(path)\<close>: \<open>FileNotFoundError\<close> for a missing path, the error of
  \<open>read_text\<close> for a path that cannot be read or decoded, the parse of the text otherwise.
\<close>

definition parse_transkript ::
  "(string \<Rightarrow> file_content option) \<Rightarrow> string \<Rightarrow> py_error + parser" where
  "parse_transkript files path =
     (case files path of
        None \<Rightarrow> Inl FileNotFoundError
      | Some Unreadable \<Rightarrow> Inl OSError
      | Some NotUtf8 \<Rightarrow> Inl UnicodeDecodeError
      | Some (Utf8Text inhalt) \<Rightarrow> parse_inhalt inhalt)"

text \<open>\<open>get_segmente_als_text\<close>: one line \<open>[start - ende] text\<close> per segment, joined by newlines.\<close>

definition segment_zeile :: "segment \<Rightarrow> string" where
  "segment_zeile sg = ''['' @ seg_start sg @ '' - '' @ seg_ende sg @ ''] '' @ seg_text sg"

definition get_segmente_als_text :: "segment list \<Rightarrow> string" where
  "get_segmente_als_text segs = join_with newline (map segment_zeile segs)"

subsection \<open>The parser's contract, in the specification's words\<close>

text \<open>
  The segment pattern of the specification,
  \<open>^\[(\d\d:\d\d\.\d\d) - (\d\d:\d\d\.\d\d)\] (.+)$\<close>, read on one line: the same fixed
  layout, and the third group is the whole rest of the line, not empty and free of
  newlines.
\<close>

definition spec_segment_match :: "string \<Rightarrow> (string \<times> string \<times> string) option" where
  "spec_segment_match zeile =
     (if take 1 zeile = ''['' \<and> zeit_match (take 8 (drop 1 zeile)) \<and>
         take 3 (drop 9 zeile) = '' - '' \<and> zeit_match (take 8 (drop 12 zeile)) \<and>
         take 2 (drop 20 zeile) = ''] '' \<and> drop 22 zeile \<noteq> [] \<and>
         newline \<notin> set (drop 22 zeile)
      then Some (take 8 (drop 1 zeile), take 8 (drop 12 zeile), drop 22 zeile)
      else None)"

definition segmente_header :: string where
  "segmente_header = ''ZEITGESTEMPELTE SEGMENTE:''"

definition volltext_header :: string where
  "volltext_header = ''VOLLTEXT:''"

text \<open>The timestamped section: the lines after the first section header.\<close>

definition zeit_section :: "string list \<Rightarrow> string list" where
  "zeit_section zeilen = drop 1 (dropWhile (\<lambda>z. strip z \<noteq> segmente_header) zeilen)"

text \<open>A segment with its three fields taken from the capture groups as they are.\<close>

definition segment_of_groups :: "string \<times> string \<times> string \<Rightarrow> segment" where
  "segment_of_groups g =
     \<lparr>seg_start = fst g, seg_ende = fst (snd g), seg_text = snd (snd g)\<rparr>"

text \<open>The same with the text stripped of surrounding whitespace, as the parser stores it.\<close>

definition stripped_segment :: "string \<times> string \<times> string \<Rightarrow> segment" where
  "stripped_segment g =
     \<lparr>seg_start = fst g, seg_ende = fst (snd g), seg_text = strip (snd (snd g))\<rparr>"

text \<open>The lines of a file as the specification counts them, and as the parser does.\<close>

definition file_zeilen :: "string \<Rightarrow> string list" where
  "file_zeilen inhalt = split_on newline inhalt"

definition parser_zeilen :: "string \<Rightarrow> string list" where
  "parser_zeilen inhalt = split_on newline (strip inhalt)"

text \<open>
  Each of the first ten lines that starts with one of the five known metadata prefixes
  has a \<open>': '\<close> to split at.
\<close>

definition metadata_splittable :: "string list \<Rightarrow> bool" where
  "metadata_splittable zeilen =
     list_all (\<lambda>z. metadata_key z = None \<or> contains z '': '') (take 10 zeilen)"

text \<open>
  The full-text section: the lines after the first \<open>VOLLTEXT:\<close> header up to the next
  header of the timestamped section, and the lines that follow that section.
\<close>

definition nach_volltext_header :: "string list \<Rightarrow> string list" where
  "nach_volltext_header zeilen = drop 1 (dropWhile (\<lambda>z. strip z \<noteq> volltext_header) zeilen)"

definition volltext_section :: "string list \<Rightarrow> string list" where
  "volltext_section zeilen =
     takeWhile (\<lambda>z. strip z \<noteq> segmente_header) (nach_volltext_header zeilen)"

definition nach_volltext_section :: "string list \<Rightarrow> string list" where
  "nach_volltext_section zeilen =
     dropWhile (\<lambda>z. strip z \<noteq> segmente_header) (nach_volltext_header zeilen)"

text \<open>A line that is not blank; and a line that is neither blank, a separator nor a header.\<close>

definition nonblank :: "string \<Rightarrow> bool" where
  "nonblank zeile = (strip zeile \<noteq> [])"

definition text_zeile :: "string \<Rightarrow> bool" where
  "text_zeile zeile =
     (strip zeile \<noteq> [] \<and> \<not> startswith zeile ''====='' \<and> strip zeile \<noteq> volltext_header)"

text \<open>
  The document of the round trip: the header of the timestamped section, then the
  segments as \<open>get_segmente_als_text\<close> writes them.
\<close>

definition roundtrip_inhalt :: "segment list \<Rightarrow> string" where
  "roundtrip_inhalt segs = segmente_header @ [newline] @ get_segmente_als_text segs"

text \<open>What every stored segment satisfies: two time stamps and a stripped one-line text.\<close>

definition segment_wohlgeformt :: "segment \<Rightarrow> bool" where
  "segment_wohlgeformt sg =
     (zeit_match (seg_start sg) \<and> zeit_match (seg_ende sg) \<and>
      newline \<notin> set (seg_text sg) \<and> strip (seg_text sg) = seg_text sg)"

subsection \<open>Example transcripts\<close>

text \<open>A transcript in the layout the web service writes, with two segments.\<close>

definition beispiel_inhalt :: string where
  "beispiel_inhalt = join_with newline
     [''Datum: 20.06.2025'', ''Sprache: de'', ''====='', '''',
      ''VOLLTEXT:'', ''hello world'', '''', ''====='', '''',
      ''ZEITGESTEMPELTE SEGMENTE:'',
      ''[00:00.00 - 00:02.50] hello'', ''[00:02.50 - 00:04.00] world'']"

definition beispiel_pfad :: string where
  "beispiel_pfad = ''scene_20250620_sz001_transkript.txt''"

definition beispiel_files :: "string \<Rightarrow> file_content option" where
  "beispiel_files = (\<lambda>p. if p = beispiel_pfad then Some (Utf8Text beispiel_inhalt) else None)"

text \<open>A path that is not among the example files.\<close>

definition fehlender_pfad :: string where
  "fehlender_pfad = ''scene_20250620_sz002_transkript.txt''"

definition beispiel_segmente :: "segment list" where
  "beispiel_segmente =
     [\<lparr>seg_start = ''00:00.00'', seg_ende = ''00:02.50'', seg_text = ''hello''\<rparr>,
      \<lparr>seg_start = ''00:02.50'', seg_ende = ''00:04.00'', seg_text = ''world''\<rparr>]"

definition beispiel_parser :: parser where
  "beispiel_parser =
     \<lparr>metadata = [(''datum'', ''20.06.2025''), (''sprache'', ''de'')],
      volltext = ''hello world'', zeitgestempelte_segmente = beispiel_segmente\<rparr>"

text \<open>A known metadata prefix with nothing to split at.\<close>

definition datum_ohne_wert :: string where
  "datum_ohne_wert = ''Datum:''"

text \<open>A segment line with two blanks after the bracket.\<close>

definition inhalt_zwei_blanks :: string where
  "inhalt_zwei_blanks = join_with newline
     [''ZEITGESTEMPELTE SEGMENTE:'', ''[00:00.00 - 00:01.00]  hi'']"

text \<open>
  A transcript in the layout the web service writes whose full text has two lines, and
  what the parser returns for it.
\<close>

definition inhalt_zwei_textzeilen :: string where
  "inhalt_zwei_textzeilen = join_with newline
     [''Datum: 20.06.2025'', ''====='', '''',
      ''VOLLTEXT:'', ''hello'', ''world'', '''', ''====='', '''',
      ''ZEITGESTEMPELTE SEGMENTE:'', ''[00:00.00 - 00:02.50] hello'']"

definition parser_zwei_textzeilen :: parser where
  "parser_zwei_textzeilen =
     \<lparr>metadata = [(''datum'', ''20.06.2025'')], volltext = ''world'',
      zeitgestempelte_segmente =
        [\<lparr>seg_start = ''00:00.00'', seg_ende = ''00:02.50'', seg_text = ''hello''\<rparr>]\<rparr>"

text \<open>A full-text section of two text lines, closed by a separator line.\<close>

definition inhalt_zwei_zeilen :: string where
  "inhalt_zwei_zeilen = join_with newline
     [''VOLLTEXT:'', ''hello'', ''world'', ''====='', ''ZEITGESTEMPELTE SEGMENTE:'']"

text \<open>A full-text section with no separator whose last line has blanks around its text.\<close>

definition inhalt_eingerueckt :: string where
  "inhalt_eingerueckt = join_with newline
     [''VOLLTEXT:'', ''hello'', ''  world  '', ''ZEITGESTEMPELTE SEGMENTE:'']"

text \<open>
  A full-text section of two lines and, after the header of the timestamped section, a
  second \<open>VOLLTEXT:\<close> header with one more line.
\<close>

definition inhalt_zwei_header :: string where
  "inhalt_zwei_header = join_with newline
     [''VOLLTEXT:'', ''hello'', ''world'', ''ZEITGESTEMPELTE SEGMENTE:'',
      ''VOLLTEXT:'', ''later'']"

text \<open>A segment line whose text is blank, followed by an ordinary one.\<close>

definition inhalt_leerer_text :: string where
  "inhalt_leerer_text = join_with newline
     [''ZEITGESTEMPELTE SEGMENTE:'', ''[00:00.00 - 00:01.00]  '', ''[00:01.00 - 00:02.00] b'']"

definition segment_leer :: segment where
  "segment_leer = \<lparr>seg_start = ''00:00.00'', seg_ende = ''00:01.00'', seg_text = []\<rparr>"

definition segment_b :: segment where
  "segment_b = \<lparr>seg_start = ''00:01.00'', seg_ende = ''00:02.00'', seg_text = ''b''\<rparr>"

section \<open>The image client (img\_gen.py)\<close>

text \<open>
  What one call of \<open>generate_img\<close> meets on its socket: the connection fails with an
  \<open>OSError\<close> of the given message, the socket times out, or a response line arrives.
  The line is empty, is not JSON, or is a JSON object, kept as its keys and values. The
  flag of a response says whether the server saved the requested image file in the
  scene directory before it answered.
\<close>

type_synonym json_object = "(string \<times> string) list"

datatype response_line = EmptyLine | InvalidJson | JsonObject json_object

datatype server_step = ConnectFailed string | SocketTimeout | Response bool response_line

datatype img_error = ConnectionError string | ValueError string

definition invalid_response_message :: string where
  "invalid_response_message = ''Ung'' @ [CHR 0xFC] @ ''ltige Antwort vom Service erhalten.''"

text \<open>
  \<open>generate_img\<close>: a socket error becomes \<open>ConnectionError\<close> with the error's text
  appended, a timeout \<open>ConnectionError\<close>, an empty or unparsable line \<open>ValueError\<close>.
  A JSON object is returned as it is, with or without an \<open>error\<close> key: both branches
  of the source end in \<open>return response\<close>.
\<close>

fun generate_img :: "server_step \<Rightarrow> img_error + json_object" where
  "generate_img (ConnectFailed msg) =
     Inl (ConnectionError (''Verbindung zum Service fehlgeschlagen: '' @ msg))"
| "generate_img SocketTimeout = Inl (ConnectionError ''Socket timeout beim Service'')"
| "generate_img (Response saved EmptyLine) = Inl (ValueError ''Empty response from service'')"
| "generate_img (Response saved InvalidJson) = Inl (ValueError invalid_response_message)"
| "generate_img (Response saved (JsonObject response)) = Inr response"

section \<open>The scene processor (scene\_visualizer\_runner.py)\<close>

text \<open>
  The name of a path is what follows its last slash (\<open>pathlib\<close>'s \<open>name\<close> and
  \<open>os.path.basename\<close> agree on a path that does not end in a slash).
\<close>

definition path_name :: "string \<Rightarrow> string" where
  "path_name p = last (split_on CHR ''/'' p)"

text \<open>
  The stem of a name: the name up to its last dot, when that dot is neither the first
  nor the last character; the whole name otherwise.
\<close>

definition path_stem :: "string \<Rightarrow> string" where
  "path_stem p =
     (let name = path_name p;
          i = length name - length (takeWhile (\<lambda>c. c \<noteq> CHR ''.'') (rev name)) - 1
      in if CHR ''.'' \<in> set name \<and> 0 < i \<and> i < length name - 1 then take i name else name)"

definition get_scene_name :: "string \<Rightarrow> string" where
  "get_scene_name transkript_datei =
     (let name = path_stem transkript_datei
      in if endswith name ''_transkript'' then take (length name - 11) name else name)"

text \<open>The files of the scene directory, by name.\<close>

record metadata_json =
  md_scene_name :: string
  md_transcript_file :: string
  md_transcript_metadata :: "(string \<times> string) list"
  md_segmente_count :: nat
  md_segmente_text :: string
  md_llm_result :: json_object
  md_dndstyle_prompt :: string
  md_szenenbeschreibung :: string
  md_image_file :: string
  md_image_generation_result :: json_object
  md_generation_attempts :: nat

record error_json =
  er_scene_name :: string
  er_error :: string
  er_dndstyle_prompt :: string
  er_szenenbeschreibung :: string
  er_llm_result :: json_object
  er_failed_attempts :: nat

datatype artifact = MetadataFile metadata_json | ErrorFile error_json | ImageFile

type_synonym scene_dir = "string \<rightharpoonup> artifact"

definition metadata_name :: "string \<Rightarrow> string" where
  "metadata_name scene_name = scene_name @ ''_metadata.json''"

definition error_name :: "string \<Rightarrow> string" where
  "error_name scene_name = scene_name @ ''_error.json''"

definition image_name :: "string \<Rightarrow> string" where
  "image_name scene_name = scene_name @ ''_image.png''"

text \<open>What the run does, in order; attempts are numbered from one as the log lines are.\<close>

datatype event = Attempt nat | Sleep nat | WriteMetadata | DeleteError | WriteError

datatype outcome = Completed | Failed | Aborted

record run =
  run_dir :: scene_dir
  run_log :: "event list"
  run_outcome :: outcome

definition max_retries :: nat where
  "max_retries = 3"

definition retry_delay :: nat where
  "retry_delay = 10"

text \<open>\<open>llm_result.get(key, default)\<close>.\<close>

definition dict_get :: "json_object \<Rightarrow> string \<Rightarrow> string \<Rightarrow> string" where
  "dict_get d k dflt = (case map_of d k of Some v \<Rightarrow> v | None \<Rightarrow> dflt)"

definition keine_beschreibung :: string where
  "keine_beschreibung = ''Keine Beschreibung verf'' @ [CHR 0xFC] @ ''gbar''"

text \<open>What the server leaves in the scene directory during one attempt.\<close>

fun server_effect :: "server_step \<Rightarrow> string \<Rightarrow> scene_dir \<Rightarrow> scene_dir" where
  "server_effect (Response True line) image_filename d = d(image_filename \<mapsto> ImageFile)"
| "server_effect step image_filename d = d"

text \<open>
  The body of the \<open>try\<close> after \<open>generate_img\<close> has returned: the metadata file is
  written, an existing error file is unlinked, and the function returns.
\<close>

definition complete_run ::
  "string \<Rightarrow> metadata_json \<Rightarrow> scene_dir \<Rightarrow> event list \<Rightarrow> run" where
  "complete_run scene_name md d evs =
     (let d1 = d(metadata_name scene_name \<mapsto> MetadataFile md)
      in if error_name scene_name \<in> dom d1
         then \<lparr>run_dir = d1(error_name scene_name := None),
               run_log = evs @ [WriteMetadata, DeleteError], run_outcome = Completed\<rparr>
         else \<lparr>run_dir = d1, run_log = evs @ [WriteMetadata], run_outcome = Completed\<rparr>)"

text \<open>
  The loop \<open>for attempt in range(max_retries)\<close>, over the attempts still to come.
  \<open>None\<close> says the loop was left (by \<open>break\<close> or at its end) without the function
  returning. A \<open>ConnectionError\<close> whose text contains \<open>Connection refused\<close> sleeps
  and continues, except after the last attempt, where the loop just ends; every other
  exception breaks.
\<close>

fun render_loop ::
  "string \<Rightarrow> metadata_json \<Rightarrow> (nat \<Rightarrow> server_step) \<Rightarrow> nat list \<Rightarrow>
   scene_dir \<Rightarrow> event list \<Rightarrow> run option \<times> scene_dir \<times> event list" where
  "render_loop scene_name md server [] d evs = (None, d, evs)"
| "render_loop scene_name md server (attempt # rest) d evs =
     (let d1 = server_effect (server attempt) (image_name scene_name) d;
          evs1 = evs @ [Attempt (attempt + 1)]
      in case generate_img (server attempt) of
           Inr result \<Rightarrow>
             (Some (complete_run scene_name
                (md\<lparr>md_image_generation_result := result,
                    md_generation_attempts := attempt + 1\<rparr>) d1 evs1), d1, evs1)
         | Inl (ConnectionError msg) \<Rightarrow>
             if contains msg ''Connection refused''
             then (if attempt < max_retries - 1
                   then render_loop scene_name md server rest d1 (evs1 @ [Sleep retry_delay])
                   else render_loop scene_name md server rest d1 evs1)
             else (None, d1, evs1)
         | Inl (ValueError msg) \<Rightarrow> (None, d1, evs1))"

text \<open>
  After the loop the error file is written. Its \<open>error\<close> field is
  \<open>str(e) if 'e' in locals() else "Unbekannter Fehler"\<close>; Python 3 unbinds the name of an
  \<open>except ... as e\<close> clause when the clause is left, so at this point \<open>e\<close> is never
  among the locals and the field is always the fixed text. \<open>failed_attempts\<close> is the
  constant \<open>max_retries\<close>, whatever the number of attempts made.
\<close>

definition unbekannter_fehler :: string where
  "unbekannter_fehler = ''Unbekannter Fehler''"

text \<open>The metadata record as the run builds it, before the result and the attempt are known.\<close>

definition new_metadata :: "string \<Rightarrow> parser \<Rightarrow> json_object \<Rightarrow> metadata_json" where
  "new_metadata transcript_path prs llm_result =
     \<lparr>md_scene_name = get_scene_name transcript_path,
      md_transcript_file = path_name transcript_path,
      md_transcript_metadata = metadata prs,
      md_segmente_count = length (zeitgestempelte_segmente prs),
      md_segmente_text = get_segmente_als_text (zeitgestempelte_segmente prs),
      md_llm_result = llm_result,
      md_dndstyle_prompt =
        dict_get llm_result ''dndstyle_prompt'' ''dndstyle illustration of a fantasy scene'',
      md_szenenbeschreibung = dict_get llm_result ''szenenbeschreibung'' keine_beschreibung,
      md_image_file = image_name (get_scene_name transcript_path),
      md_image_generation_result = [],
      md_generation_attempts = 0\<rparr>"

definition new_error_json :: "string \<Rightarrow> json_object \<Rightarrow> error_json" where
  "new_error_json transcript_path llm_result =
     \<lparr>er_scene_name = get_scene_name transcript_path,
      er_error = unbekannter_fehler,
      er_dndstyle_prompt =
        dict_get llm_result ''dndstyle_prompt'' ''dndstyle illustration of a fantasy scene'',
      er_szenenbeschreibung = dict_get llm_result ''szenenbeschreibung'' keine_beschreibung,
      er_llm_result = llm_result,
      er_failed_attempts = max_retries\<rparr>"

text \<open>
  \<open>process_new_transcript\<close>. A parser exception is caught by the outer handler, which
  only logs. The language model's answer is an input here: \<open>_generate_scene_prompt\<close>
  always returns a result.
\<close>

definition process_new_transcript ::
  "(string \<Rightarrow> file_content option) \<Rightarrow> string \<Rightarrow> json_object \<Rightarrow>
   (nat \<Rightarrow> server_step) \<Rightarrow> scene_dir \<Rightarrow> run" where
  "process_new_transcript files transcript_path llm_result server d =
     (case parse_transkript files transcript_path of
        Inl e \<Rightarrow> \<lparr>run_dir = d, run_log = [], run_outcome = Aborted\<rparr>
      | Inr prs \<Rightarrow>
          (case render_loop (get_scene_name transcript_path)
                  (new_metadata transcript_path prs llm_result) server [0..<max_retries] d [] of
             (Some r, d1, evs) \<Rightarrow> r
           | (None, d1, evs) \<Rightarrow>
               \<lparr>run_dir = d1(error_name (get_scene_name transcript_path) \<mapsto>
                   ErrorFile (new_error_json transcript_path llm_result)),
                run_log = evs @ [WriteError], run_outcome = Failed\<rparr>))"

subsection \<open>The artifacts of a scene, in the specification's words\<close>


definition is_attempt :: "event \<Rightarrow> bool" where
  "is_attempt ev = (case ev of Attempt n \<Rightarrow> True | _ \<Rightarrow> False)"

subsection \<open>Example servers\<close>




definition server_error_response :: "nat \<Rightarrow> server_step" where
  "server_error_response = (\<lambda>attempt. Response False
     (JsonObject [(''error'', ''CUDA out of memory'')]))"

definition server_empty_response :: "nat \<Rightarrow> server_step" where
  "server_empty_response = (\<lambda>attempt. Response False EmptyLine)"

definition beispiel_llm :: json_object where
  "beispiel_llm =
     [(''szenenbeschreibung'', ''Eine Taverne''),
      (''dndstyle_prompt'', ''dndstyle illustration of a tavern'')]"

definition beispiel_scene :: string where
  "beispiel_scene = ''scene_20250620_sz001''"

section \<open>The tracking store and the reconciliation (scene\_visualizer\_runner.py)\<close>

text \<open>
  Time stamps are readings of a clock, kept as numbers; one pass uses one reading for
  every \<open>datetime.now()\<close> it makes. Status values are the strings of the source.
\<close>

type_synonym timestamp = nat

record file_info =
  fi_filename :: string
  fi_size :: nat
  fi_modified :: timestamp
  fi_hash :: string
  fi_status :: string
  fi_last_seen :: timestamp
  fi_detected_at :: "timestamp option"
  fi_details :: "string option"
  fi_previous_status :: "string option"
  fi_modified_at :: "timestamp option"

text \<open>
  The tracking dictionary. \<open>sync_count\<close> is absent from a freshly initialised file and
  read with \<open>get("sync_count", 0)\<close>.
\<close>

record tracking_data =
  td_last_updated :: timestamp
  td_transcripts :: "(string \<times> file_info) list"
  td_status :: string
  td_sync_count :: "nat option"

text \<open>
  What the tracking file holds: text on which \<open>json.load\<close> raises, or a tracking
  dictionary.
\<close>

datatype tracking_content = Corrupt | Tracking tracking_data

text \<open>A file of the watched directory as the scan reads it: name, size, mtime, MD5 digest.\<close>

record dir_entry =
  de_name :: string
  de_size :: nat
  de_mtime :: timestamp
  de_hash :: string

text \<open>
  The runner's world: the tracking file and its backup (absent or with a content), the
  files of the watched directory, the scene directory, the \<open>running\<close> flag, and the
  transcripts for which a processing thread has been started.
\<close>

record world =
  tracking_file :: "tracking_content option"
  backup_file :: "tracking_content option"
  transkript_dir :: "dir_entry list"
  scene_files :: scene_dir
  running :: bool
  started :: "string list"

text \<open>\<open>glob("*_transkript.txt")\<close>: the files whose name ends in \<open>_transkript.txt\<close>.\<close>

definition glob_transkripte :: "dir_entry list \<Rightarrow> dir_entry list" where
  "glob_transkripte entries = filter (\<lambda>e. endswith (de_name e) ''_transkript.txt'') entries"

text \<open>The scan: \<open>current_files[file_path.name] = file_info\<close> for every file found.\<close>

definition scanned_info :: "timestamp \<Rightarrow> dir_entry \<Rightarrow> file_info" where
  "scanned_info now e =
     \<lparr>fi_filename = de_name e, fi_size = de_size e, fi_modified = de_mtime e,
      fi_hash = de_hash e, fi_status = ''detected'', fi_last_seen = now,
      fi_detected_at = None, fi_details = None, fi_previous_status = None,
      fi_modified_at = None\<rparr>"

fun scan_files ::
  "timestamp \<Rightarrow> dir_entry list \<Rightarrow> (string \<times> file_info) list \<Rightarrow> (string \<times> file_info) list" where
  "scan_files now [] current = current"
| "scan_files now (e # es) current =
     scan_files now es (AList.update (de_name e) (scanned_info now e) current)"

text \<open>
  \<open>transcript_name.replace("_transkript.txt", "")\<close>: every occurrence of the text is
  removed, from left to right.
\<close>

function remove_transkript_txt :: "string \<Rightarrow> string" where
  "remove_transkript_txt [] = []"
| "remove_transkript_txt (x # xs) =
     (if startswith (x # xs) ''_transkript.txt''
      then remove_transkript_txt (drop 15 (x # xs))
      else x # remove_transkript_txt xs)"
  by pat_completeness auto
termination
  by (relation "measure length") auto

definition check_for_existing_output :: "scene_dir \<Rightarrow> string \<Rightarrow> bool" where
  "check_for_existing_output scene transcript_name =
     (let base_name = remove_transkript_txt transcript_name
      in image_name base_name \<in> dom scene \<and> metadata_name base_name \<in> dom scene)"

text \<open>
  The comparison loop over \<open>current_files.items()\<close>: the tracked entries, the
  \<open>updated\<close> flag and the threads started.
\<close>

record sync_state =
  ss_transcripts :: "(string \<times> file_info) list"
  ss_updated :: bool
  ss_started :: "string list"

definition compare_file ::
  "timestamp \<Rightarrow> bool \<Rightarrow> scene_dir \<Rightarrow> string \<times> file_info \<Rightarrow> sync_state \<Rightarrow> sync_state" where
  "compare_file now run scene item st =
     (let filename = fst item; info = snd item
      in case map_of (ss_transcripts st) filename of
           None \<Rightarrow>
             (let has_output = check_for_existing_output scene filename;
                  info1 = info\<lparr>fi_status := (if has_output then ''completed'' else ''new''),
                               fi_detected_at := Some now,
                               fi_details := Some (if has_output then ''Output bereits vorhanden''
                                                   else ''Bereit zur Verarbeitung'')\<rparr>
              in \<lparr>ss_transcripts = AList.update filename info1 (ss_transcripts st),
                  ss_updated = True,
                  ss_started = (if \<not> has_output \<and> run then ss_started st @ [filename]
                                else ss_started st)\<rparr>)
         | Some tracked \<Rightarrow>
             if fi_hash tracked \<noteq> fi_hash info
             then
               (let old_status = fi_status tracked;
                    info1 = info\<lparr>fi_status := ''modified'',
                                 fi_previous_status := Some old_status,
                                 fi_modified_at := Some now\<rparr>
                in \<lparr>ss_transcripts = AList.update filename info1 (ss_transcripts st),
                    ss_updated = True,
                    ss_started = (if run \<and> old_status \<noteq> ''completed''
                                  then ss_started st @ [filename] else ss_started st)\<rparr>)
             else
               st\<lparr>ss_transcripts :=
                    AList.update filename (tracked\<lparr>fi_last_seen := now\<rparr>) (ss_transcripts st)\<rparr>)"

fun compare_files ::
  "timestamp \<Rightarrow> bool \<Rightarrow> scene_dir \<Rightarrow> (string \<times> file_info) list \<Rightarrow> sync_state \<Rightarrow> sync_state" where
  "compare_files now run scene [] st = st"
| "compare_files now run scene (item # items) st =
     compare_files now run scene items (compare_file now run scene item st)"

text \<open>
  The removal loop over \<open>list(tracking_data["transcripts"].keys())\<close>: an entry whose
  file is no longer in the directory is deleted.
\<close>

fun remove_stale :: "string list \<Rightarrow> string list \<Rightarrow> sync_state \<Rightarrow> sync_state" where
  "remove_stale [] current_names st = st"
| "remove_stale (filename # rest) current_names st =
     (if filename \<notin> set current_names
      then remove_stale rest current_names
             (st\<lparr>ss_transcripts := AList.delete filename (ss_transcripts st),
                 ss_updated := True\<rparr>)
      else remove_stale rest current_names st)"

text \<open>
  One pass on a tracking file that loads. The file is rewritten only if \<open>updated\<close> is
  set; the rewrite stores the new time, the status \<open>active\<close> and the incremented
  \<open>sync_count\<close>. Without a change nothing is written, and the new \<open>last_seen\<close> values
  are dropped with the dictionary.
\<close>

definition sync_pass :: "timestamp \<Rightarrow> tracking_data \<Rightarrow> world \<Rightarrow> world" where
  "sync_pass now td w =
     (let current_files = scan_files now (glob_transkripte (transkript_dir w)) [];
          st1 = compare_files now (running w) (scene_files w) current_files
                  \<lparr>ss_transcripts = td_transcripts td, ss_updated = False,
                   ss_started = started w\<rparr>;
          st2 = remove_stale (map fst (ss_transcripts st1)) (map fst current_files) st1
      in if ss_updated st2
         then w\<lparr>tracking_file := Some (Tracking
                  (td\<lparr>td_last_updated := now, td_transcripts := ss_transcripts st2,
                      td_status := ''active'',
                      td_sync_count := Some ((case td_sync_count td of None \<Rightarrow> 0 | Some c \<Rightarrow> c) + 1)\<rparr>)),
                started := ss_started st2\<rparr>
         else w)"

definition fresh_tracking :: "timestamp \<Rightarrow> tracking_data" where
  "fresh_tracking now =
     \<lparr>td_last_updated = now, td_transcripts = [], td_status = ''initialized'',
      td_sync_count = None\<rparr>"

text \<open>
  \<open>_sync_tracking_with_filesystem\<close>, \<open>_initialize_tracking\<close> and \<open>_repair_tracking\<close>
  call one another. Every exception is caught and logged in the three functions, so
  each returns; the first argument bounds the depth of the calls as Python's recursion
  limit does, and at the bound the \<open>RecursionError\<close> is caught like any other
  exception, with the files as they are.

  A missing tracking file takes \<open>_sync_tracking_with_filesystem\<close> to
  \<open>_initialize_tracking\<close>. A file that does not load raises in \<open>json.load\<close>; the
  handler calls \<open>_repair_tracking\<close>, which copies the file to the backup
  (\<open>shutil.copy2\<close>, the file stays) and calls \<open>_initialize_tracking\<close>. That function
  writes a fresh file only if none exists, and then calls
  \<open>_sync_tracking_with_filesystem\<close>.
\<close>

fun sync_tracking_with_filesystem :: "nat \<Rightarrow> timestamp \<Rightarrow> world \<Rightarrow> world"
  and initialize_tracking :: "nat \<Rightarrow> timestamp \<Rightarrow> world \<Rightarrow> world"
  and repair_tracking :: "nat \<Rightarrow> timestamp \<Rightarrow> world \<Rightarrow> world" where
  "sync_tracking_with_filesystem 0 now w = w"
| "sync_tracking_with_filesystem (Suc depth) now w =
     (case tracking_file w of
        None \<Rightarrow> initialize_tracking depth now w
      | Some Corrupt \<Rightarrow> repair_tracking depth now w
      | Some (Tracking td) \<Rightarrow> sync_pass now td w)"
| "initialize_tracking 0 now w = w"
| "initialize_tracking (Suc depth) now w =
     sync_tracking_with_filesystem depth now
       (if tracking_file w = None
        then w\<lparr>tracking_file := Some (Tracking (fresh_tracking now))\<rparr> else w)"
| "repair_tracking 0 now w = w"
| "repair_tracking (Suc depth) now w =
     initialize_tracking depth now
       (if tracking_file w \<noteq> None then w\<lparr>backup_file := tracking_file w\<rparr> else w)"

subsection \<open>Writing the tracking file\<close>

text \<open>
  \<open>with open(self.tracking_file, 'w') as f: json.dump(tracking_data, f)\<close>, as the file
  system sees it: the open truncates the file, then the serialised text arrives in
  pieces. No other file is touched. A file store maps a path to its text.
\<close>

datatype fs_op = OpenTruncate string | AppendText string string

definition persist_ops :: "string \<Rightarrow> string list \<Rightarrow> fs_op list" where
  "persist_ops path pieces = OpenTruncate path # map (AppendText path) pieces"

fun apply_op :: "(string \<rightharpoonup> string) \<Rightarrow> fs_op \<Rightarrow> (string \<rightharpoonup> string)" where
  "apply_op store (OpenTruncate path) = store(path \<mapsto> [])"
| "apply_op store (AppendText path t) =
     store(path \<mapsto> (case store path of None \<Rightarrow> t | Some old \<Rightarrow> old @ t))"

text \<open>The store after an interruption that lets the first \<open>k\<close> operations through.\<close>

definition interrupted :: "(string \<rightharpoonup> string) \<Rightarrow> fs_op list \<Rightarrow> nat \<Rightarrow> (string \<rightharpoonup> string)" where
  "interrupted store ops k = foldl apply_op store (take k ops)"

subsection \<open>Example worlds\<close>

definition beispiel_entry :: dir_entry where
  "beispiel_entry =
     \<lparr>de_name = ''scene_20250620_sz001_transkript.txt'', de_size = 120, de_mtime = 5,
      de_hash = ''0cc175b9c0f1b6a831c399e269772661''\<rparr>"


definition world_corrupt :: world where
  "world_corrupt =
     \<lparr>tracking_file = Some Corrupt, backup_file = None,
      transkript_dir = [beispiel_entry], scene_files = Map.empty, running = True,
      started = []\<rparr>"

definition tracking_pfad :: string where
  "tracking_pfad = ''web/transkripte/transkript_tracking.json''"

subsection \<open>The tracked entries against the directory\<close>

text \<open>The digest each tracked name is recorded with.\<close>

definition tracked_hash :: "(string \<times> file_info) list \<Rightarrow> string \<Rightarrow> string option" where
  "tracked_hash tracked name = map_option fi_hash (map_of tracked name)"



definition persisted_transcripts :: "world \<Rightarrow> (string \<times> file_info) list" where
  "persisted_transcripts w =
     (case tracking_file w of Some (Tracking td) \<Rightarrow> td_transcripts td | _ \<Rightarrow> [])"

text \<open>The text of a tracking file and the pieces of its successor (quotes left out).\<close>

definition alter_text :: string where
  "alter_text = ''{status: initialized}''"

definition neue_pieces :: "string list" where
  "neue_pieces = [''{status: '', ''active}'']"

section \<open>The image name of an LLM answer (dnd\_image\_generator.py)\<close>









text \<open>\<open>re.sub(r'_{2,}', '_', name)\<close>: a run of underscores becomes one.\<close>

fun collapse_underscores :: "string \<Rightarrow> string" where
  "collapse_underscores (a # b # xs) =
     (if a = CHR ''_'' \<and> b = CHR ''_'' then collapse_underscores (b # xs)
      else a # collapse_underscores (b # xs))"
| "collapse_underscores xs = xs"







subsection \<open>The clean-up in the specification's words\<close>



section \<open>Facts about the string operations\<close>

lemma split_on_nonempty: "split_on c s \<noteq> []"
  by (induction s) (auto split: list.splits)

lemma split_on_no_sep: "l \<in> set (split_on c s) \<Longrightarrow> c \<notin> set l"
  by (induction s arbitrary: l) (auto split: list.splits if_splits)

lemma split_on_append: "c \<notin> set a \<Longrightarrow> split_on c (a @ c # b) = a # split_on c b"
  by (induction a) auto

lemma split_on_nosep: "c \<notin> set a \<Longrightarrow> split_on c a = [a]"
  by (induction a) auto

lemma split_on_join:
  "ls \<noteq> [] \<Longrightarrow> \<forall>l\<in>set ls. c \<notin> set l \<Longrightarrow> split_on c (join_with c ls) = ls"
proof (induction c ls rule: join_with.induct)
  case (1 c)
  then show ?case by simp
next
  case (2 c p)
  then show ?case by (simp add: split_on_nosep)
next
  case (3 c p q ps)
  then show ?case by (simp add: split_on_append)
qed

lemma lstrip_cons: "\<not> isspace x \<Longrightarrow> lstrip (x # xs) = x # xs"
  by (simp add: lstrip_def)

lemma rstrip_snoc: "\<not> isspace y \<Longrightarrow> rstrip (xs @ [y]) = xs @ [y]"
  by (simp add: rstrip_def)

lemma rstrip_cons: "\<not> isspace x \<Longrightarrow> rstrip (x # xs) = x # rstrip xs"
  by (simp add: rstrip_def dropWhile_append)

lemma strip_cons: "\<not> isspace x \<Longrightarrow> strip (x # xs) = x # rstrip xs"
  by (simp add: strip_def lstrip_cons rstrip_cons)

lemma strip_id: "s \<noteq> [] \<Longrightarrow> \<not> isspace (hd s) \<Longrightarrow> \<not> isspace (last s) \<Longrightarrow> strip s = s"
proof -
  assume a: "s \<noteq> []" "\<not> isspace (hd s)" "\<not> isspace (last s)"
  then obtain x xs where s: "s = x # xs" by (cases s) auto
  from a obtain ys y where s': "s = ys @ [y]" by (metis append_butlast_last_id)
  have "lstrip s = s" using a s by (simp add: lstrip_cons)
  moreover have "rstrip s = s" using a s' by (simp add: rstrip_snoc)
  ultimately show ?thesis by (simp add: strip_def)
qed

lemma rstrip_last: "rstrip s \<noteq> [] \<Longrightarrow> \<not> isspace (last (rstrip s))"
  unfolding rstrip_def
  by (metis (full_types) hd_dropWhile last_rev rev_is_Nil_conv)

lemma lstrip_hd: "lstrip s \<noteq> [] \<Longrightarrow> \<not> isspace (hd (lstrip s))"
  unfolding lstrip_def by (simp add: hd_dropWhile)

lemma rstrip_hd: "rstrip s \<noteq> [] \<Longrightarrow> s \<noteq> [] \<and> hd (rstrip s) = hd s"
  by (cases s) (auto simp: rstrip_def dropWhile_append split: if_splits)

lemma strip_ends: "strip s \<noteq> [] \<Longrightarrow> \<not> isspace (hd (strip s)) \<and> \<not> isspace (last (strip s))"
  unfolding strip_def using rstrip_last rstrip_hd lstrip_hd by metis

lemma strip_strip: "strip (strip s) = strip s"
  by (cases "strip s = []") (auto simp: strip_ends strip_id, simp add: strip_def rstrip_def lstrip_def)

lemma set_rstrip: "set (rstrip s) \<subseteq> set s"
  unfolding rstrip_def by (metis set_dropWhileD set_rev subsetI)

lemma set_strip: "set (strip s) \<subseteq> set s"
  unfolding strip_def lstrip_def using set_rstrip set_dropWhileD by fastforce

text \<open>The definitions a concrete transcript is evaluated with.\<close>

lemmas parser_eval =
  parse_transkript_def parse_inhalt_def parser_zeilen_def file_zeilen_def
  strip_def lstrip_def rstrip_def isspace_def isdigit_def
  metadata_key_def startswith_def audio_prefix_def newline_def scan_zeile_def scan_init_def
  segment_match_def spec_segment_match_def zeit_match_def zeit_section_def
  segmente_header_def volltext_header_def stripped_segment_def segment_of_groups_def
  metadata_splittable_def nach_volltext_header_def volltext_section_def
  nach_volltext_section_def nonblank_def text_zeile_def roundtrip_inhalt_def
  get_segmente_als_text_def segment_zeile_def

section \<open>The parser: segments\<close>

lemma zeit_match_length: "zeit_match s \<Longrightarrow> length s = 8"
  by (auto simp: zeit_match_def split: list.splits)

lemma segment_match_spec:
  "newline \<notin> set zeile \<Longrightarrow> segment_match zeile = spec_segment_match zeile"
proof -
  assume a: "newline \<notin> set zeile"
  have nl: "newline \<notin> set (drop 22 zeile)" using a by (meson in_set_dropD)
  then have tw: "takeWhile (\<lambda>c. c \<noteq> newline) (drop 22 zeile) = drop 22 zeile"
    by (auto simp: takeWhile_eq_all_conv)
  show ?thesis unfolding segment_match_def spec_segment_match_def Let_def tw
    using nl by simp
qed

lemma segment_match_hd:
  "segment_match zeile = Some g \<Longrightarrow> \<exists>t. zeile = CHR ''['' # t"
  by (cases zeile) (auto simp: segment_match_def Let_def split: if_splits)

lemma not_space_bracket: "\<not> isspace CHR ''[''"
  by (simp add: isspace_def)

lemma segment_match_strip:
  assumes "segment_match zeile = Some g"
  shows "strip zeile \<noteq> [] \<and> hd (strip zeile) = CHR ''['' \<and> hd zeile = CHR ''[''"
proof -
  from assms obtain t where "zeile = CHR ''['' # t" using segment_match_hd by blast
  then show ?thesis by (simp add: strip_cons not_space_bracket)
qed

lemma segment_match_no_header:
  assumes "segment_match zeile = Some g"
  shows "strip zeile \<noteq> ''VOLLTEXT:''" "strip zeile \<noteq> ''ZEITGESTEMPELTE SEGMENTE:''"
    "\<not> startswith zeile ''=====''" "strip zeile \<noteq> []"
  using segment_match_strip[OF assms] segment_match_hd[OF assms]
  by (auto simp: startswith_def)

lemma scan_zeile_running:
  "zeitstempel_start st \<Longrightarrow>
   zeitstempel_start (scan_zeile zeile st) \<and>
   st_segmente (scan_zeile zeile st) =
     st_segmente st @ map stripped_segment (List.map_filter segment_match [zeile])"
proof (cases "segment_match zeile")
  case None
  assume "zeitstempel_start st"
  then show ?thesis using None
    by (simp add: scan_zeile_def Let_def)
next
  case (Some g)
  assume "zeitstempel_start st"
  then show ?thesis using Some segment_match_no_header[OF Some]
    by (cases g) (simp add: scan_zeile_def Let_def stripped_segment_def)
qed

lemma scan_zeilen_running:
  "zeitstempel_start st \<Longrightarrow>
   st_segmente (scan_zeilen zeilen st) =
     st_segmente st @ map stripped_segment (List.map_filter segment_match zeilen)"
proof (induction zeilen arbitrary: st)
  case Nil
  then show ?case by simp
next
  case (Cons z zs)
  have "zeitstempel_start (scan_zeile z st)" using Cons.prems scan_zeile_running by blast
  from Cons.IH[OF this] scan_zeile_running[OF Cons.prems, of z]
  show ?case by (cases "segment_match z") simp_all
qed

lemma scan_zeile_before:
  assumes "\<not> zeitstempel_start st" "strip zeile \<noteq> segmente_header"
  shows "\<not> zeitstempel_start (scan_zeile zeile st) \<and>
   st_segmente (scan_zeile zeile st) = st_segmente st"
proof (cases "strip zeile = ''VOLLTEXT:''")
  case True
  then show ?thesis using assms by (simp add: scan_zeile_def)
next
  case False
  note nv = False
  show ?thesis
  proof (cases "startswith zeile ''=====''")
    case True
    then show ?thesis using assms nv by (simp add: scan_zeile_def segmente_header_def)
  next
    case False
    then show ?thesis using assms nv
      by (cases "volltext_start st"; cases "strip zeile = []")
         (simp_all add: scan_zeile_def segmente_header_def Let_def)
  qed
qed

lemma scan_zeile_header:
  "strip zeile = segmente_header \<Longrightarrow>
   zeitstempel_start (scan_zeile zeile st) \<and>
   st_segmente (scan_zeile zeile st) = st_segmente st"
  by (simp add: scan_zeile_def Let_def segmente_header_def)

lemma scan_zeilen_before:
  "\<not> zeitstempel_start st \<Longrightarrow>
   st_segmente (scan_zeilen zeilen st) =
     st_segmente st @ map stripped_segment (List.map_filter segment_match (zeit_section zeilen))"
proof (induction zeilen arbitrary: st)
  case Nil
  then show ?case by (simp add: zeit_section_def)
next
  case (Cons z zs)
  show ?case
  proof (cases "strip z = segmente_header")
    case True
    then have "zeit_section (z # zs) = zs" by (simp add: zeit_section_def)
    then show ?thesis
      using scan_zeile_header[OF True, of st] scan_zeilen_running[of "scan_zeile z st" zs]
      by simp
  next
    case False
    then have "zeit_section (z # zs) = zeit_section zs" by (simp add: zeit_section_def)
    then show ?thesis
      using scan_zeile_before[OF Cons.prems False] Cons.IH[of "scan_zeile z st"]
      by simp
  qed
qed

lemma map_filter_cong_set:
  "(\<And>x. x \<in> set xs \<Longrightarrow> f x = g x) \<Longrightarrow> List.map_filter f xs = List.map_filter g xs"
  by (induction xs) (auto simp: split: option.splits)

lemma split_colon_contains: "contains z '': '' \<Longrightarrow> split_colon_1 z \<noteq> None"
  by (induction z) (auto)

lemma parse_metadata_total:
  "list_all (\<lambda>z. metadata_key z = None \<or> contains z '': '') zeilen \<Longrightarrow>
   \<exists>md'. parse_metadata zeilen md = Inr md'"
proof (induction zeilen arbitrary: md)
  case Nil
  then show ?case by simp
next
  case (Cons z zs)
  then show ?case using split_colon_contains[of z]
    by (cases "metadata_key z"; cases "split_colon_1 z") auto
qed

lemma zeit_section_set: "set (zeit_section zeilen) \<subseteq> set zeilen"
  unfolding zeit_section_def by (meson in_set_dropD set_dropWhileD subsetI)

text \<open>
  Claim C6, as the parser does it. A missing path fails with \<open>FileNotFoundError\<close>; an
  existing path that cannot be read, or whose bytes are not valid UTF-8, fails with the
  error of \<open>read_text\<close>. For an existing file that decodes as UTF-8 and whose known
  metadata lines (among the first ten lines of the stripped text) each have a \<open>': '\<close>,
  the parser returns, and its segments are exactly the lines after the first header of
  the timestamped section that match the anchored segment pattern, in file order, with
  start and end taken from the first two groups and the text taken from the third group
  and stripped of surrounding whitespace. Lines that do not match, and metadata lines
  with no known prefix, contribute nothing.
\<close>

theorem parse_segments:
  "(files path = None \<longrightarrow> parse_transkript files path = Inl FileNotFoundError) \<and>
   (files path = Some Unreadable \<longrightarrow> parse_transkript files path = Inl OSError) \<and>
   (files path = Some NotUtf8 \<longrightarrow> parse_transkript files path = Inl UnicodeDecodeError) \<and>
   (\<forall>inhalt. files path = Some (Utf8Text inhalt) \<and>
        metadata_splittable (parser_zeilen inhalt) \<longrightarrow>
      (\<exists>p. parse_transkript files path = Inr p \<and>
           zeitgestempelte_segmente p =
             map stripped_segment
               (List.map_filter spec_segment_match (zeit_section (parser_zeilen inhalt)))))"
proof (intro conjI allI impI)
  assume "files path = None"
  then show "parse_transkript files path = Inl FileNotFoundError"
    by (simp add: parse_transkript_def)
next
  assume "files path = Some Unreadable"
  then show "parse_transkript files path = Inl OSError"
    by (simp add: parse_transkript_def)
next
  assume "files path = Some NotUtf8"
  then show "parse_transkript files path = Inl UnicodeDecodeError"
    by (simp add: parse_transkript_def)
next
  fix inhalt
  assume a: "files path = Some (Utf8Text inhalt) \<and> metadata_splittable (parser_zeilen inhalt)"
  let ?zs = "parser_zeilen inhalt"
  from a obtain md where md: "parse_metadata (take 10 ?zs) [] = Inr md"
    using parse_metadata_total unfolding metadata_splittable_def by blast
  have nl: "\<And>z. z \<in> set (zeit_section ?zs) \<Longrightarrow> segment_match z = spec_segment_match z"
    using zeit_section_set split_on_no_sep segment_match_spec
    unfolding parser_zeilen_def by blast
  have "st_segmente (scan_zeilen ?zs scan_init) =
          map stripped_segment (List.map_filter segment_match (zeit_section ?zs))"
    using scan_zeilen_before[of scan_init ?zs] by (simp add: scan_init_def)
  also have "\<dots> = map stripped_segment (List.map_filter spec_segment_match (zeit_section ?zs))"
    using map_filter_cong_set[of "zeit_section ?zs" segment_match spec_segment_match] nl by simp
  finally show "\<exists>p. parse_transkript files path = Inr p \<and>
           zeitgestempelte_segmente p =
             map stripped_segment
               (List.map_filter spec_segment_match (zeit_section (parser_zeilen inhalt)))"
    using a md by (simp add: parse_transkript_def parse_inhalt_def parser_zeilen_def Let_def)
qed

text \<open>
  The theorem at the example files. The example transcript decodes, its metadata lines
  can be split, and its two segments come out; a path that is not among the files fails
  with \<open>FileNotFoundError\<close>.
\<close>

theorem parse_segments_witness:
  "beispiel_files beispiel_pfad = Some (Utf8Text beispiel_inhalt) \<and>
   metadata_splittable (parser_zeilen beispiel_inhalt) \<and>
   (\<exists>p. parse_transkript beispiel_files beispiel_pfad = Inr p \<and>
        zeitgestempelte_segmente p = beispiel_segmente) \<and>
   beispiel_files fehlender_pfad = None \<and>
   parse_transkript beispiel_files fehlender_pfad = Inl FileNotFoundError"
proof -
  have h1: "beispiel_files beispiel_pfad = Some (Utf8Text beispiel_inhalt)"
    by (simp add: beispiel_files_def)
  have h2: "metadata_splittable (parser_zeilen beispiel_inhalt)"
    by (simp add: beispiel_inhalt_def parser_eval)
  have h3: "beispiel_files fehlender_pfad = None"
    by (simp add: beispiel_files_def beispiel_pfad_def fehlender_pfad_def)
  have ev: "map stripped_segment
      (List.map_filter spec_segment_match (zeit_section (parser_zeilen beispiel_inhalt))) =
      beispiel_segmente"
    by (simp add: beispiel_inhalt_def beispiel_segmente_def parser_eval List.map_filter_def)
  from parse_segments[of beispiel_files beispiel_pfad] h1 h2
  have "\<exists>p. parse_transkript beispiel_files beispiel_pfad = Inr p \<and>
        zeitgestempelte_segmente p = map stripped_segment
      (List.map_filter spec_segment_match (zeit_section (parser_zeilen beispiel_inhalt)))"
    by blast
  moreover from parse_segments[of beispiel_files fehlender_pfad] h3
  have "parse_transkript beispiel_files fehlender_pfad = Inl FileNotFoundError"
    by blast
  ultimately show ?thesis using h1 h2 h3 ev by simp
qed

text \<open>
  Claim C6 as it is written fails in three places. The parser is not total on existing
  files: a file that is not valid UTF-8 makes \<open>read_text\<close> raise \<open>UnicodeDecodeError\<close>,
  and a first line \<open>Datum:\<close> with nothing after the colon makes the metadata loop raise
  \<open>IndexError\<close>. And for the line \<open>[00:00.00 - 00:01.00]  hi\<close> the third capture group
  is \<open>' hi'\<close>, while the parser stores \<open>'hi'\<close>.
\<close>

theorem parse_segments_counterexample:
  "parse_transkript (\<lambda>p. Some NotUtf8) beispiel_pfad = Inl UnicodeDecodeError \<and>
   parse_transkript (\<lambda>p. Some (Utf8Text datum_ohne_wert)) beispiel_pfad = Inl IndexError \<and>
   parse_transkript (\<lambda>p. Some (Utf8Text inhalt_zwei_blanks)) beispiel_pfad =
     Inr \<lparr>metadata = [], volltext = [], zeitgestempelte_segmente =
       [\<lparr>seg_start = ''00:00.00'', seg_ende = ''00:01.00'', seg_text = ''hi''\<rparr>]\<rparr> \<and>
   map segment_of_groups
     (List.map_filter spec_segment_match (zeit_section (file_zeilen inhalt_zwei_blanks))) =
       [\<lparr>seg_start = ''00:00.00'', seg_ende = ''00:01.00'', seg_text = '' hi''\<rparr>]"
  by (simp add: datum_ohne_wert_def inhalt_zwei_blanks_def parser_eval List.map_filter_def)

section \<open>The parser: the full text\<close>

lemma scan_zeile_volltext_header:
  "strip zeile = volltext_header \<Longrightarrow> scan_zeile zeile st = st\<lparr>volltext_start := True\<rparr>"
  by (simp add: scan_zeile_def volltext_header_def)

lemma scan_zeile_segmente_header:
  "strip zeile = segmente_header \<Longrightarrow>
   scan_zeile zeile st = st\<lparr>volltext_start := False, zeitstempel_start := True\<rparr>"
  by (simp add: scan_zeile_def segmente_header_def)

lemma scan_zeile_no_text:
  assumes "strip zeile \<noteq> volltext_header" "strip zeile \<noteq> segmente_header" "\<not> text_zeile zeile"
  shows "volltext_start (scan_zeile zeile st) = volltext_start st \<and>
         st_volltext (scan_zeile zeile st) = st_volltext st"
proof (cases "startswith zeile ''=====''")
  case True
  then show ?thesis using assms
    by (simp add: scan_zeile_def segmente_header_def volltext_header_def)
next
  case False
  then have blank: "strip zeile = []" using assms by (simp add: text_zeile_def)
  have nm: "segment_match zeile = None"
    using segment_match_no_header(4)[of zeile] blank by (cases "segment_match zeile") auto
  show ?thesis using False blank nm
    by (simp add: scan_zeile_def Let_def)
qed

lemma scan_zeile_text:
  assumes "strip zeile \<noteq> segmente_header" "text_zeile zeile"
  shows "volltext_start (scan_zeile zeile st) = volltext_start st \<and>
         st_volltext (scan_zeile zeile st) =
           (if volltext_start st then strip zeile else st_volltext st)"
proof -
  have f: "strip zeile \<noteq> ''VOLLTEXT:''" "strip zeile \<noteq> ''ZEITGESTEMPELTE SEGMENTE:''"
    "\<not> startswith zeile ''=====''" "strip zeile \<noteq> []"
    using assms by (simp_all add: text_zeile_def volltext_header_def segmente_header_def)
  show ?thesis using f
    by (cases "volltext_start st"; cases "zeitstempel_start st"; cases "segment_match zeile")
       (auto simp: scan_zeile_def Let_def)
qed

lemma scan_zeilen_volltext_off:
  "\<not> volltext_start st \<Longrightarrow> list_all (\<lambda>z. strip z \<noteq> volltext_header) zeilen \<Longrightarrow>
   st_volltext (scan_zeilen zeilen st) = st_volltext st"
proof (induction zeilen arbitrary: st)
  case Nil
  then show ?case by simp
next
  case (Cons z zs)
  have nv: "strip z \<noteq> volltext_header" using Cons.prems by simp
  have step: "\<not> volltext_start (scan_zeile z st) \<and> st_volltext (scan_zeile z st) = st_volltext st"
  proof (cases "strip z = segmente_header")
    case True
    then show ?thesis by (simp add: scan_zeile_segmente_header)
  next
    case False
    then show ?thesis
      using scan_zeile_no_text[OF nv False, of st] scan_zeile_text[OF False, of st] Cons.prems(1)
      by (cases "text_zeile z") simp_all
  qed
  then show ?case using Cons.IH[of "scan_zeile z st"] Cons.prems by simp
qed

lemma scan_zeilen_volltext_on:
  "volltext_start st \<Longrightarrow>
   list_all (\<lambda>z. strip z \<noteq> volltext_header)
     (dropWhile (\<lambda>z. strip z \<noteq> segmente_header) zeilen) \<Longrightarrow>
   st_volltext (scan_zeilen zeilen st) =
     (if filter text_zeile (takeWhile (\<lambda>z. strip z \<noteq> segmente_header) zeilen) = []
      then st_volltext st
      else strip (last (filter text_zeile
             (takeWhile (\<lambda>z. strip z \<noteq> segmente_header) zeilen))))"
proof (induction zeilen arbitrary: st)
  case Nil
  then show ?case by simp
next
  case (Cons z zs)
  show ?case
  proof (cases "strip z = segmente_header")
    case True
    have "list_all (\<lambda>z. strip z \<noteq> volltext_header) zs" using Cons.prems(2) True by simp
    then have "st_volltext (scan_zeilen zs (scan_zeile z st)) = st_volltext st"
      using scan_zeilen_volltext_off[of "scan_zeile z st" zs] True
      by (simp add: scan_zeile_segmente_header)
    then show ?thesis using True by simp
  next
    case False
    note nz = False
    have rest: "list_all (\<lambda>z. strip z \<noteq> volltext_header)
        (dropWhile (\<lambda>z. strip z \<noteq> segmente_header) zs)"
      using Cons.prems(2) nz by simp
    show ?thesis
    proof (cases "text_zeile z")
      case True
      have s: "volltext_start (scan_zeile z st)" "st_volltext (scan_zeile z st) = strip z"
        using scan_zeile_text[OF nz True, of st] Cons.prems(1) by simp_all
      show ?thesis using Cons.IH[OF s(1) rest] s(2) nz True by simp
    next
      case False
      have "volltext_start (scan_zeile z st) \<and> st_volltext (scan_zeile z st) = st_volltext st"
      proof (cases "strip z = volltext_header")
        case True
        then show ?thesis using Cons.prems(1)
          by (simp add: scan_zeile_volltext_header)
      next
        case nv: False
        show ?thesis
          using scan_zeile_no_text[OF nv nz False, of st] Cons.prems(1) by simp
      qed
      then have s: "volltext_start (scan_zeile z st)"
        "st_volltext (scan_zeile z st) = st_volltext st" by simp_all
      show ?thesis using Cons.IH[OF s(1) rest] s(2) nz False by simp
    qed
  qed
qed

lemma scan_zeilen_volltext_search:
  "\<not> volltext_start st \<Longrightarrow>
   list_all (\<lambda>z. strip z \<noteq> volltext_header) (nach_volltext_section zeilen) \<Longrightarrow>
   st_volltext (scan_zeilen zeilen st) =
     (if filter text_zeile (volltext_section zeilen) = [] then st_volltext st
      else strip (last (filter text_zeile (volltext_section zeilen))))"
proof (induction zeilen arbitrary: st)
  case Nil
  then show ?case by (simp add: volltext_section_def nach_volltext_header_def)
next
  case (Cons z zs)
  show ?case
  proof (cases "strip z = volltext_header")
    case True
    have a: "volltext_section (z # zs) = takeWhile (\<lambda>z. strip z \<noteq> segmente_header) zs"
      and b: "nach_volltext_section (z # zs) = dropWhile (\<lambda>z. strip z \<noteq> segmente_header) zs"
      using True by (simp_all add: volltext_section_def nach_volltext_section_def nach_volltext_header_def)
    show ?thesis
      using scan_zeilen_volltext_on[of "scan_zeile z st" zs] Cons.prems(2) True
      unfolding a b by (simp add: scan_zeile_volltext_header)
  next
    case False
    note nv = False
    have a: "volltext_section (z # zs) = volltext_section zs"
      and b: "nach_volltext_section (z # zs) = nach_volltext_section zs"
      using False by (simp_all add: volltext_section_def nach_volltext_section_def nach_volltext_header_def)
    have step: "\<not> volltext_start (scan_zeile z st) \<and> st_volltext (scan_zeile z st) = st_volltext st"
    proof (cases "strip z = segmente_header")
      case True
      then show ?thesis by (simp add: scan_zeile_segmente_header)
    next
      case False
      then show ?thesis
        using scan_zeile_no_text[OF nv False, of st] scan_zeile_text[OF False, of st] Cons.prems(1)
        by (cases "text_zeile z") simp_all
    qed
    show ?thesis using Cons.IH[of "scan_zeile z st"] step Cons.prems(2) unfolding a b by simp
  qed
qed

text \<open>
  Claim C10, as the parser does it. When no further \<open>VOLLTEXT:\<close> header follows the
  full-text section and the section has at least one line that is neither blank, nor a
  separator starting with \<open>=====\<close>, nor a repeated header, the returned full text is
  the last such line alone, stripped of surrounding whitespace: each such line
  overwrites the one before, nothing is concatenated.
\<close>

theorem volltext_last_text_line:
  assumes "parse_inhalt inhalt = Inr p"
    and "list_all (\<lambda>z. strip z \<noteq> volltext_header) (nach_volltext_section (parser_zeilen inhalt))"
    and "filter text_zeile (volltext_section (parser_zeilen inhalt)) \<noteq> []"
  shows "volltext p = strip (last (filter text_zeile (volltext_section (parser_zeilen inhalt))))"
proof -
  have "volltext p = st_volltext (scan_zeilen (parser_zeilen inhalt) scan_init)"
    using assms(1)
    by (auto simp: parse_inhalt_def parser_zeilen_def Let_def split: sum.splits)
  moreover have "\<not> volltext_start scan_init" by (simp add: scan_init_def)
  ultimately show ?thesis
    using scan_zeilen_volltext_search[OF _ assms(2), of scan_init] assms(3) by simp
qed

text \<open>
  The theorem at a transcript whose full-text section has the two text lines \<open>hello\<close>
  and \<open>world\<close>, followed by a blank line and a separator: the hypotheses hold and the
  full text is \<open>world\<close>, the second line alone.
\<close>

theorem volltext_last_text_line_witness:
  "parse_inhalt inhalt_zwei_textzeilen = Inr parser_zwei_textzeilen \<and>
   list_all (\<lambda>z. strip z \<noteq> volltext_header)
     (nach_volltext_section (parser_zeilen inhalt_zwei_textzeilen)) \<and>
   filter text_zeile (volltext_section (parser_zeilen inhalt_zwei_textzeilen)) =
     [''hello'', ''world''] \<and>
   volltext parser_zwei_textzeilen =
     strip (last (filter text_zeile (volltext_section (parser_zeilen inhalt_zwei_textzeilen)))) \<and>
   volltext parser_zwei_textzeilen = ''world''"
proof -
  have h1: "parse_inhalt inhalt_zwei_textzeilen = Inr parser_zwei_textzeilen"
    by (simp add: inhalt_zwei_textzeilen_def parser_zwei_textzeilen_def parser_eval)
  have h2: "list_all (\<lambda>z. strip z \<noteq> volltext_header)
     (nach_volltext_section (parser_zeilen inhalt_zwei_textzeilen))"
    by (simp add: inhalt_zwei_textzeilen_def parser_eval)
  have ev: "filter text_zeile (volltext_section (parser_zeilen inhalt_zwei_textzeilen)) =
     [''hello'', ''world'']"
    by (simp add: inhalt_zwei_textzeilen_def parser_eval)
  then have h3: "filter text_zeile (volltext_section (parser_zeilen inhalt_zwei_textzeilen)) \<noteq> []"
    by simp
  have v: "volltext parser_zwei_textzeilen = ''world''"
    by (simp add: parser_zwei_textzeilen_def)
  have "volltext parser_zwei_textzeilen =
     strip (last (filter text_zeile (volltext_section (parser_zeilen inhalt_zwei_textzeilen))))"
    using volltext_last_text_line[OF h1 h2 h3] .
  then show ?thesis using h1 h2 ev v by (intro conjI)
qed

text \<open>
  Claim C10 as it is written fails in three ways. Where the section ends with a
  separator, as in every file the web service writes, the last non-empty line of the
  section is \<open>=====\<close> and the parser returns the text line before it. Where the last
  line is \<open>'  world  '\<close>, the parser returns \<open>'world'\<close>, not the line. And where a second
  \<open>VOLLTEXT:\<close> header follows the header of the timestamped section, the section has
  the two lines \<open>hello\<close> and \<open>world\<close> and the parser returns \<open>later\<close>, a line outside it.
\<close>

theorem volltext_last_text_line_counterexample:
  "1 < length (filter nonblank (volltext_section (file_zeilen inhalt_zwei_zeilen))) \<and>
   last (filter nonblank (volltext_section (file_zeilen inhalt_zwei_zeilen))) = ''====='' \<and>
   parse_inhalt inhalt_zwei_zeilen =
     Inr \<lparr>metadata = [], volltext = ''world'', zeitgestempelte_segmente = []\<rparr> \<and>
   filter nonblank (volltext_section (file_zeilen inhalt_eingerueckt)) =
     [''hello'', ''  world  ''] \<and>
   parse_inhalt inhalt_eingerueckt =
     Inr \<lparr>metadata = [], volltext = ''world'', zeitgestempelte_segmente = []\<rparr> \<and>
   filter nonblank (volltext_section (file_zeilen inhalt_zwei_header)) =
     [''hello'', ''world''] \<and>
   parse_inhalt inhalt_zwei_header =
     Inr \<lparr>metadata = [], volltext = ''later'', zeitgestempelte_segmente = []\<rparr>"
  by (simp add: inhalt_zwei_zeilen_def inhalt_eingerueckt_def inhalt_zwei_header_def parser_eval)

section \<open>The parser: the round trip of the segments\<close>

lemma zeit_match_no_newline: "zeit_match s \<Longrightarrow> newline \<notin> set s"
  by (auto simp: zeit_match_def newline_def isdigit_def split: list.splits)

lemma segment_match_wohlgeformt:
  assumes "segment_match zeile = Some g"
  shows "segment_wohlgeformt (stripped_segment g)"
proof -
  obtain a b t where g: "g = (a, b, t)" by (cases g)
  from assms g have z: "zeit_match a" "zeit_match b"
    and t: "t = takeWhile (\<lambda>c. c \<noteq> newline) (drop 22 zeile)"
    by (auto simp: segment_match_def Let_def split: if_splits)
  have "newline \<notin> set t" unfolding t by (metis (full_types) set_takeWhileD)
  then have "newline \<notin> set (strip t)" using set_strip by blast
  then show ?thesis using z g
    by (simp add: segment_wohlgeformt_def stripped_segment_def strip_strip)
qed

lemma map_filter_wohlgeformt:
  "list_all segment_wohlgeformt (map stripped_segment (List.map_filter segment_match zeilen))"
proof (induction zeilen)
  case Nil
  then show ?case by simp
next
  case (Cons z zs)
  then show ?case
    by (cases "segment_match z") (simp_all add: segment_match_wohlgeformt)
qed

lemma parse_inhalt_wohlgeformt:
  assumes "parse_inhalt inhalt = Inr p"
  shows "list_all segment_wohlgeformt (zeitgestempelte_segmente p)"
proof -
  have "zeitgestempelte_segmente p = st_segmente (scan_zeilen (parser_zeilen inhalt) scan_init)"
    using assms
    by (auto simp: parse_inhalt_def parser_zeilen_def Let_def split: sum.splits)
  also have "\<dots> = map stripped_segment
      (List.map_filter segment_match (zeit_section (parser_zeilen inhalt)))"
    using scan_zeilen_before[of scan_init "parser_zeilen inhalt"] by (simp add: scan_init_def)
  finally show ?thesis using map_filter_wohlgeformt by simp
qed

lemma segment_match_zeile:
  assumes "segment_wohlgeformt sg" "seg_text sg \<noteq> []"
  shows "segment_match (segment_zeile sg) = Some (seg_start sg, seg_ende sg, seg_text sg)"
proof -
  have l: "length (seg_start sg) = 8" "length (seg_ende sg) = 8"
    using assms(1) zeit_match_length by (auto simp: segment_wohlgeformt_def)
  have nl: "newline \<notin> set (seg_text sg)" using assms(1) by (simp add: segment_wohlgeformt_def)
  then have tw: "takeWhile (\<lambda>c. c \<noteq> newline) (seg_text sg) = seg_text sg"
    by (auto simp: takeWhile_eq_all_conv)
  show ?thesis using l assms
    by (simp add: segment_match_def segment_zeile_def Let_def segment_wohlgeformt_def tw)
qed

lemma stripped_segment_id:
  "segment_wohlgeformt sg \<Longrightarrow>
   stripped_segment (seg_start sg, seg_ende sg, seg_text sg) = sg"
  by (simp add: stripped_segment_def segment_wohlgeformt_def)

lemma map_filter_segment_zeile:
  "list_all segment_wohlgeformt segs \<Longrightarrow> list_all (\<lambda>sg. seg_text sg \<noteq> []) segs \<Longrightarrow>
   map stripped_segment (List.map_filter segment_match (map segment_zeile segs)) = segs"
  by (induction segs) (simp_all add: segment_match_zeile stripped_segment_id)

lemma segment_zeile_no_newline:
  "segment_wohlgeformt sg \<Longrightarrow> newline \<notin> set (segment_zeile sg)"
  using zeit_match_no_newline
  by (auto simp: segment_zeile_def segment_wohlgeformt_def newline_def)

lemma segment_zeile_no_key: "metadata_key (segment_zeile sg) = None"
  by (simp add: metadata_key_def segment_zeile_def startswith_def audio_prefix_def)

lemma parse_metadata_no_key:
  "list_all (\<lambda>z. metadata_key z = None) zeilen \<Longrightarrow> parse_metadata zeilen md = Inr md"
  by (induction zeilen) simp_all

lemma list_all_take: "list_all P xs \<Longrightarrow> list_all P (take n xs)"
  by (metis append_take_drop_id list_all_append)

lemma join_with_nonempty:
  "ls \<noteq> [] \<Longrightarrow> last ls \<noteq> [] \<Longrightarrow> join_with c ls \<noteq> []"
  by (induction c ls rule: join_with.induct) auto

lemma last_join_with:
  "ls \<noteq> [] \<Longrightarrow> last ls \<noteq> [] \<Longrightarrow> last (join_with c ls) = last (last ls)"
  by (induction c ls rule: join_with.induct) (auto simp: join_with_nonempty)

lemma segment_zeile_last:
  "seg_text sg \<noteq> [] \<Longrightarrow> segment_zeile sg \<noteq> [] \<and> last (segment_zeile sg) = last (seg_text sg)"
  by (simp add: segment_zeile_def)

lemma header_facts:
  "newline \<notin> set segmente_header" "strip segmente_header = segmente_header"
  "metadata_key segmente_header = None" "\<not> isspace (hd segmente_header)"
  "segmente_header \<noteq> []"
  by (simp_all add: parser_eval)

lemma strip_roundtrip_inhalt:
  assumes "segs \<noteq> []" "list_all segment_wohlgeformt segs" "list_all (\<lambda>sg. seg_text sg \<noteq> []) segs"
  shows "strip (roundtrip_inhalt segs) = roundtrip_inhalt segs"
proof -
  let ?ls = "map segment_zeile segs"
  have ne: "?ls \<noteq> []" using assms(1) by simp
  have lt: "seg_text (last segs) \<noteq> []" "segment_wohlgeformt (last segs)"
    using assms by (simp_all add: list_all_iff)
  have ll: "last ?ls = segment_zeile (last segs)" using assms(1) by (simp add: last_map)
  then have lne: "last ?ls \<noteq> []" using segment_zeile_last lt(1) by simp
  have jl: "join_with newline ?ls \<noteq> []"
    "last (join_with newline ?ls) = last (seg_text (last segs))"
    using join_with_nonempty[OF ne lne] last_join_with[OF ne lne] ll segment_zeile_last[OF lt(1)]
    by simp_all
  have "strip (seg_text (last segs)) \<noteq> []" using lt by (simp add: segment_wohlgeformt_def)
  then have "\<not> isspace (last (seg_text (last segs)))"
    using strip_ends[of "seg_text (last segs)"] lt(2) by (simp add: segment_wohlgeformt_def)
  then have "\<not> isspace (last (roundtrip_inhalt segs))"
    using jl by (simp add: roundtrip_inhalt_def get_segmente_als_text_def)
  moreover have "\<not> isspace (hd (roundtrip_inhalt segs))" "roundtrip_inhalt segs \<noteq> []"
    using header_facts(4,5) by (simp_all add: roundtrip_inhalt_def)
  ultimately show ?thesis using strip_id by blast
qed

lemma zeilen_roundtrip_inhalt:
  assumes "segs \<noteq> []" "list_all segment_wohlgeformt segs"
  shows "split_on newline (roundtrip_inhalt segs) = segmente_header # map segment_zeile segs"
proof -
  have "\<forall>l\<in>set (map segment_zeile segs). newline \<notin> set l"
    using assms(2) segment_zeile_no_newline by (auto simp: list_all_iff)
  then have "split_on newline (join_with newline (map segment_zeile segs)) = map segment_zeile segs"
    using split_on_join[of "map segment_zeile segs" newline] assms(1) by simp
  then show ?thesis
    using split_on_append[OF header_facts(1)]
    by (simp add: roundtrip_inhalt_def get_segmente_als_text_def)
qed

lemma parse_zeilen_roundtrip:
  assumes "list_all segment_wohlgeformt segs" "list_all (\<lambda>sg. seg_text sg \<noteq> []) segs"
  shows "parse_metadata (take 10 (segmente_header # map segment_zeile segs)) [] = Inr [] \<and>
         st_segmente (scan_zeilen (segmente_header # map segment_zeile segs) scan_init) = segs"
proof -
  have "list_all (\<lambda>z. metadata_key z = None) (segmente_header # map segment_zeile segs)"
    using header_facts(3) segment_zeile_no_key by (simp add: list_all_iff)
  then have md: "parse_metadata (take 10 (segmente_header # map segment_zeile segs)) [] = Inr []"
    using parse_metadata_no_key list_all_take by blast
  have "zeit_section (segmente_header # map segment_zeile segs) = map segment_zeile segs"
    using header_facts(2) by (simp add: zeit_section_def)
  then have "st_segmente (scan_zeilen (segmente_header # map segment_zeile segs) scan_init) =
       map stripped_segment (List.map_filter segment_match (map segment_zeile segs))"
    using scan_zeilen_before[of scan_init "segmente_header # map segment_zeile segs"]
    by (simp add: scan_init_def)
  then show ?thesis using md map_filter_segment_zeile[OF assms] by simp
qed

lemma parse_roundtrip_inhalt:
  assumes "list_all segment_wohlgeformt segs" "list_all (\<lambda>sg. seg_text sg \<noteq> []) segs"
  shows "\<exists>q. parse_inhalt (roundtrip_inhalt segs) = Inr q \<and> zeitgestempelte_segmente q = segs"
proof (cases "segs = []")
  case True
  then show ?thesis by (simp add: parser_eval)
next
  case False
  have z: "split_on newline (strip (roundtrip_inhalt segs)) =
        segmente_header # map segment_zeile segs"
    using strip_roundtrip_inhalt[OF False assms] zeilen_roundtrip_inhalt[OF False assms(1)]
    by simp
  show ?thesis using parse_zeilen_roundtrip[OF assms]
    unfolding parse_inhalt_def z by (simp add: Let_def)
qed

text \<open>
  Claim C7, as the code does it. For every successfully parsed transcript whose segments
  all have a non-empty text, writing the segments with \<open>get_segmente_als_text\<close> under
  the header of the timestamped section and parsing the result succeeds and yields the
  same segment sequence.
\<close>

theorem segmente_roundtrip:
  assumes "parse_inhalt inhalt = Inr p"
    and "list_all (\<lambda>sg. seg_text sg \<noteq> []) (zeitgestempelte_segmente p)"
  shows "\<exists>q. parse_inhalt (roundtrip_inhalt (zeitgestempelte_segmente p)) = Inr q \<and>
             zeitgestempelte_segmente q = zeitgestempelte_segmente p"
  using parse_roundtrip_inhalt[OF parse_inhalt_wohlgeformt[OF assms(1)] assms(2)] .

text \<open>The theorem at the example transcript.\<close>

theorem segmente_roundtrip_witness:
  "parse_inhalt beispiel_inhalt = Inr beispiel_parser \<and>
   list_all (\<lambda>sg. seg_text sg \<noteq> []) (zeitgestempelte_segmente beispiel_parser) \<and>
   (\<exists>q. parse_inhalt (roundtrip_inhalt (zeitgestempelte_segmente beispiel_parser)) = Inr q \<and>
        zeitgestempelte_segmente q = zeitgestempelte_segmente beispiel_parser)"
proof -
  have h1: "parse_inhalt beispiel_inhalt = Inr beispiel_parser"
    by (simp add: beispiel_inhalt_def beispiel_parser_def beispiel_segmente_def parser_eval)
  have h2: "list_all (\<lambda>sg. seg_text sg \<noteq> []) (zeitgestempelte_segmente beispiel_parser)"
    by (simp add: beispiel_parser_def beispiel_segmente_def)
  show ?thesis using segmente_roundtrip[OF h1 h2] h1 h2 by simp
qed

text \<open>
  Claim C7 as it is written fails for a segment whose text is blank: the line
  \<open>[00:00.00 - 00:01.00]\<close> followed by two blanks is parsed into a segment with the
  empty text, which is written back as a line that no longer matches the pattern, so
  the second parse has one segment where the first had two.
\<close>

theorem segmente_roundtrip_counterexample:
  "parse_inhalt inhalt_leerer_text =
     Inr \<lparr>metadata = [], volltext = [], zeitgestempelte_segmente = [segment_leer, segment_b]\<rparr> \<and>
   parse_inhalt (roundtrip_inhalt [segment_leer, segment_b]) =
     Inr \<lparr>metadata = [], volltext = [], zeitgestempelte_segmente = [segment_b]\<rparr>"
  by (simp add: inhalt_leerer_text_def segment_leer_def segment_b_def parser_eval)

section \<open>The scene processor: error file and success files\<close>

lemma artifact_names_distinct:
  "metadata_name s \<noteq> error_name s" "metadata_name s \<noteq> image_name s"
  "error_name s \<noteq> image_name s" "error_name s \<noteq> metadata_name s"
  "image_name s \<noteq> metadata_name s" "image_name s \<noteq> error_name s"
  by (simp_all add: metadata_name_def error_name_def image_name_def)


lemma server_effect_image:
  "image_filename \<in> dom d \<Longrightarrow> image_filename \<in> dom (server_effect step image_filename d)"
  by (cases "(step, image_filename, d)" rule: server_effect.cases) auto

lemma server_effect_no_response:
  "server_effect (ConnectFailed msg) image_filename d = d"
  by simp

lemma complete_run_facts:
  "run_outcome (complete_run s md d evs) = Completed"
  "metadata_name s \<in> dom (run_dir (complete_run s md d evs))"
  "error_name s \<notin> dom (run_dir (complete_run s md d evs))"
  "run_dir (complete_run s md d evs) (metadata_name s) = Some (MetadataFile md)"
  "WriteError \<notin> set evs \<Longrightarrow> WriteError \<notin> set (run_log (complete_run s md d evs))"
  using artifact_names_distinct[of s]
  by (auto simp: complete_run_def Let_def)


lemma process_new_transcript_parsed:
  assumes "parse_transkript files path = Inr prs"
  shows "process_new_transcript files path llm server d =
     (case render_loop (get_scene_name path) (new_metadata path prs llm) server
             [0..<max_retries] d [] of
        (Some r, d1, evs) \<Rightarrow> r
      | (None, d1, evs) \<Rightarrow>
          \<lparr>run_dir = d1(error_name (get_scene_name path) \<mapsto>
             ErrorFile (new_error_json path llm)),
           run_log = evs @ [WriteError], run_outcome = Failed\<rparr>)"
  using assms by (simp add: process_new_transcript_def)


section \<open>The scene processor: retries and error responses\<close>

lemma beispiel_parse: "parse_transkript beispiel_files beispiel_pfad = Inr beispiel_parser"
  by (simp add: beispiel_files_def beispiel_inhalt_def beispiel_parser_def
      beispiel_segmente_def parser_eval)


lemma upt_max_retries: "[0..<max_retries] = [0, 1, 2]"
  by (simp add: max_retries_def numeral_3_eq_3)






text \<open>
  Claim C3 fails on the code for a \<open>ServerError\<close>. Whatever JSON object the first
  attempt receives, with an \<open>error\<close> key or without, \<open>generate_img\<close> returns it and the
  run takes the success path: the metadata file is written with the object as the
  generation result and one attempt counted, nothing is retried, no error file is
  written and an existing one is deleted.
\<close>

theorem error_response_completes:
  assumes "parse_transkript files path = Inr prs"
    and "server 0 = Response saved (JsonObject response)"
  shows "run_outcome (process_new_transcript files path llm server d) = Completed \<and>
         error_name (get_scene_name path) \<notin>
           dom (run_dir (process_new_transcript files path llm server d)) \<and>
         run_dir (process_new_transcript files path llm server d)
             (metadata_name (get_scene_name path)) =
           Some (MetadataFile ((new_metadata path prs llm)
             \<lparr>md_image_generation_result := response, md_generation_attempts := 1\<rparr>)) \<and>
         filter is_attempt (run_log (process_new_transcript files path llm server d)) =
           [Attempt 1] \<and>
         WriteError \<notin> set (run_log (process_new_transcript files path llm server d))"
proof -
  let ?s = "get_scene_name path"
  let ?md = "(new_metadata path prs llm)
             \<lparr>md_image_generation_result := response, md_generation_attempts := 1\<rparr>"
  let ?d1 = "server_effect (server 0) (image_name ?s) d"
  have loop: "render_loop ?s (new_metadata path prs llm) server [0..<max_retries] d [] =
      (Some (complete_run ?s ?md ?d1 [Attempt 1]), ?d1, [Attempt 1])"
    unfolding upt_max_retries using assms(2) by (simp add: Let_def)
  have r: "process_new_transcript files path llm server d = complete_run ?s ?md ?d1 [Attempt 1]"
    using process_new_transcript_parsed[OF assms(1), of llm server d] loop by simp
  have l: "filter is_attempt (run_log (complete_run ?s ?md ?d1 [Attempt 1])) = [Attempt 1]"
    by (simp add: complete_run_def Let_def is_attempt_def)
  show ?thesis unfolding r
    using complete_run_facts(1,3,4)[of ?s ?md ?d1 "[Attempt 1]"]
      complete_run_facts(5)[of "[Attempt 1]" ?s ?md ?d1] l
    by simp
qed

text \<open>
  The theorem at the example transcript with a server that answers
  \<open>{"error": "CUDA out of memory"}\<close>, while an error file of an earlier run exists.
\<close>

theorem error_response_completes_witness:
  "parse_transkript beispiel_files beispiel_pfad = Inr beispiel_parser \<and>
   server_error_response 0 =
     Response False (JsonObject [(''error'', ''CUDA out of memory'')]) \<and>
   run_outcome (process_new_transcript beispiel_files beispiel_pfad beispiel_llm
     server_error_response
     [error_name beispiel_scene \<mapsto> ErrorFile (new_error_json beispiel_pfad beispiel_llm)]) =
     Completed \<and>
   error_name (get_scene_name beispiel_pfad) \<notin>
     dom (run_dir (process_new_transcript beispiel_files beispiel_pfad beispiel_llm
       server_error_response
       [error_name beispiel_scene \<mapsto> ErrorFile (new_error_json beispiel_pfad beispiel_llm)])) \<and>
   run_dir (process_new_transcript beispiel_files beispiel_pfad beispiel_llm
       server_error_response
       [error_name beispiel_scene \<mapsto> ErrorFile (new_error_json beispiel_pfad beispiel_llm)])
     (metadata_name (get_scene_name beispiel_pfad)) =
     Some (MetadataFile ((new_metadata beispiel_pfad beispiel_parser beispiel_llm)
       \<lparr>md_image_generation_result := [(''error'', ''CUDA out of memory'')],
        md_generation_attempts := 1\<rparr>))"
proof -
  have h2: "server_error_response 0 =
     Response False (JsonObject [(''error'', ''CUDA out of memory'')])"
    by (simp add: server_error_response_def)
  show ?thesis
    using error_response_completes[where server=server_error_response,
        OF beispiel_parse h2, of beispiel_llm
      "[error_name beispiel_scene \<mapsto> ErrorFile (new_error_json beispiel_pfad beispiel_llm)]"]
      beispiel_parse h2
    by simp
qed

text \<open>
  An empty or unparsable response line is not retried and the run fails; the error
  file then holds the fixed text as its reason and \<open>max_retries\<close> as its attempt
  count, after the one attempt made.
\<close>

lemma protocol_error_fails:
  assumes "parse_transkript files path = Inr prs"
    and "server 0 = Response saved EmptyLine \<or> server 0 = Response saved InvalidJson"
  shows "run_outcome (process_new_transcript files path llm server d) = Failed \<and>
         run_log (process_new_transcript files path llm server d) = [Attempt 1, WriteError] \<and>
         run_dir (process_new_transcript files path llm server d)
             (error_name (get_scene_name path)) =
           Some (ErrorFile (new_error_json path llm)) \<and>
         er_error (new_error_json path llm) = unbekannter_fehler \<and>
         er_failed_attempts (new_error_json path llm) = max_retries"
proof -
  let ?s = "get_scene_name path"
  let ?d1 = "server_effect (server 0) (image_name ?s) d"
  have loop: "render_loop ?s (new_metadata path prs llm) server [0..<max_retries] d [] =
      (None, ?d1, [Attempt 1])"
    unfolding upt_max_retries using assms(2) by (auto simp: Let_def)
  have r: "process_new_transcript files path llm server d =
      \<lparr>run_dir = ?d1(error_name ?s \<mapsto> ErrorFile (new_error_json path llm)),
       run_log = [Attempt 1] @ [WriteError], run_outcome = Failed\<rparr>"
    using process_new_transcript_parsed[OF assms(1), of llm server d] loop by simp
  show ?thesis unfolding r by (simp add: new_error_json_def)
qed

section \<open>The scene processor: the error file over several runs\<close>





section \<open>The tracking store: a corrupt file\<close>

lemma corrupt_stays:
  "tracking_file w = Some Corrupt \<Longrightarrow>
   tracking_file (sync_tracking_with_filesystem depth now w) = Some Corrupt \<and>
   tracking_file (initialize_tracking depth now w) = Some Corrupt \<and>
   tracking_file (repair_tracking depth now w) = Some Corrupt"
proof (induction depth arbitrary: w)
  case 0
  then show ?case by simp
next
  case (Suc depth)
  have "tracking_file (w\<lparr>backup_file := tracking_file w\<rparr>) = Some Corrupt"
    using Suc.prems by simp
  then show ?case using Suc.IH[of w] Suc.IH[of "w\<lparr>backup_file := tracking_file w\<rparr>"] Suc.prems
    by simp
qed

text \<open>
  Claim C5 fails on the code. A tracking file that does not load is copied to the
  backup, not moved; \<open>_initialize_tracking\<close> then finds the file in place and writes
  nothing, and the next load fails again. Whatever the depth the calls reach, the
  tracking file is still the corrupt one afterwards, so no transcript has a record, and
  no processing thread is started.
\<close>

theorem corrupt_tracking_not_repaired:
  assumes "tracking_file w = Some Corrupt"
  shows "tracking_file (sync_tracking_with_filesystem depth now w) = Some Corrupt \<and>
         persisted_transcripts (sync_tracking_with_filesystem depth now w) = []"
  using corrupt_stays[OF assms, of depth now] by (simp add: persisted_transcripts_def)

text \<open>The backup is made, as a copy beside the corrupt file.\<close>

lemma corrupt_backup_stays:
  "tracking_file w = Some Corrupt \<Longrightarrow> backup_file w = Some Corrupt \<Longrightarrow>
   backup_file (sync_tracking_with_filesystem depth now w) = Some Corrupt \<and>
   backup_file (initialize_tracking depth now w) = Some Corrupt \<and>
   backup_file (repair_tracking depth now w) = Some Corrupt"
proof (induction depth arbitrary: w)
  case 0
  then show ?case by simp
next
  case (Suc depth)
  show ?case
    using Suc.IH[of w] Suc.IH[of "w\<lparr>backup_file := Some Corrupt\<rparr>"] Suc.prems by simp
qed

lemma corrupt_backup_made:
  assumes "tracking_file w = Some Corrupt"
  shows "backup_file (sync_tracking_with_filesystem (Suc (Suc depth)) now w) = Some Corrupt"
proof -
  have "sync_tracking_with_filesystem (Suc (Suc depth)) now w =
        initialize_tracking depth now (w\<lparr>backup_file := Some Corrupt\<rparr>)"
    using assms by simp
  then show ?thesis
    using corrupt_backup_stays[of "w\<lparr>backup_file := Some Corrupt\<rparr>" depth now] assms
    by simp
qed

text \<open>
  The theorem at a world with one transcript and a corrupt tracking file, at depth 1000.
\<close>

theorem corrupt_tracking_not_repaired_witness:
  "tracking_file world_corrupt = Some Corrupt \<and>
   tracking_file (sync_tracking_with_filesystem 1000 7 world_corrupt) = Some Corrupt \<and>
   persisted_transcripts (sync_tracking_with_filesystem 1000 7 world_corrupt) = [] \<and>
   map de_name (transkript_dir world_corrupt) = [''scene_20250620_sz001_transkript.txt'']"
proof -
  have h: "tracking_file world_corrupt = Some Corrupt" by (simp add: world_corrupt_def)
  show ?thesis using corrupt_tracking_not_repaired[OF h, of 1000 7] h
    by (simp add: world_corrupt_def beispiel_entry_def)
qed

section \<open>The reconciliation: a second pass\<close>



lemma tracked_hash_update:
  "tracked_hash (AList.update k v al) = (tracked_hash al)(k \<mapsto> fi_hash v)"
  by (rule ext) (simp add: tracked_hash_def update_conv')


lemma tracked_hash_dom: "dom (tracked_hash al) = fst ` set al"
proof -
  have "dom (tracked_hash al) = dom (map_of al)"
    by (auto simp: tracked_hash_def dom_def)
  then show ?thesis by (simp add: dom_map_of_conv_image_fst)
qed

text \<open>One comparison: the digest map, the flag and the threads.\<close>

lemma compare_file_hash:
  "tracked_hash (ss_transcripts (compare_file now run scene (k, info) st)) =
     (tracked_hash (ss_transcripts st))(k \<mapsto> fi_hash info)"
proof (cases "map_of (ss_transcripts st) k")
  case None
  then show ?thesis by (simp add: compare_file_def Let_def tracked_hash_update)
next
  case (Some t)
  then show ?thesis
    by (cases "fi_hash t = fi_hash info")
       (simp_all add: compare_file_def Let_def tracked_hash_update)
qed








lemma compare_files_keys:
  "fst ` set (ss_transcripts (compare_files now run scene items st)) =
     fst ` set (ss_transcripts st) \<union> fst ` set items"
proof (induction items arbitrary: st)
  case Nil
  then show ?case by simp
next
  case (Cons item items)
  obtain k info where i: "item = (k, info)" by (cases item)
  have "dom (tracked_hash (ss_transcripts (compare_file now run scene (k, info) st))) =
        insert k (dom (tracked_hash (ss_transcripts st)))"
    by (simp add: compare_file_hash)
  then have "fst ` set (ss_transcripts (compare_file now run scene (k, info) st)) =
        insert k (fst ` set (ss_transcripts st))"
    by (simp add: tracked_hash_dom)
  then show ?case using Cons.IH[of "compare_file now run scene (k, info) st"] i by auto
qed












section \<open>The tracking store: writing the file\<close>

lemma append_ops_path:
  "store path = Some c \<Longrightarrow>
   foldl apply_op store (map (AppendText path) ps) path = Some (c @ concat ps)"
proof (induction ps arbitrary: store c)
  case Nil
  then show ?case by simp
next
  case (Cons p ps)
  have h: "apply_op store (AppendText path p) path = Some (c @ p)" using Cons.prems by simp
  have "foldl apply_op store (map (AppendText path) (p # ps)) path =
        foldl apply_op (apply_op store (AppendText path p)) (map (AppendText path) ps) path"
    by (simp del: apply_op.simps)
  also have "\<dots> = Some ((c @ p) @ concat ps)"
    by (rule Cons.IH[of "apply_op store (AppendText path p)" "c @ p", OF h])
  finally show ?case by simp
qed

lemma append_ops_other:
  "p \<noteq> path \<Longrightarrow> foldl apply_op store (map (AppendText path) ps) p = store p"
  by (induction ps arbitrary: store) simp_all

text \<open>
  Claim C4, as the code does it. The persist works on the tracking file itself: after
  the first \<open>k\<close> operations the file holds its previous text if \<open>k = 0\<close>, and
  otherwise the first \<open>k - 1\<close> pieces of the new text, which is nothing right after the
  open and the complete new text only when all pieces are written. Every other path of
  the store is as it was throughout: there is no temporary file and nothing is renamed.
\<close>

theorem persist_in_place:
  "interrupted store (persist_ops path pieces) k p =
     (if p = path
      then (if k = 0 then store path else Some (concat (take (k - 1) pieces)))
      else store p)"
proof (cases k)
  case 0
  then show ?thesis by (simp add: interrupted_def)
next
  case (Suc j)
  have t: "take k (persist_ops path pieces) =
        OpenTruncate path # map (AppendText path) (take j pieces)"
    using Suc by (simp add: persist_ops_def take_map)
  show ?thesis
  proof (cases "p = path")
    case True
    then show ?thesis
      using append_ops_path[of "store(path \<mapsto> [])" path "[]" "take j pieces"] Suc
      unfolding interrupted_def t by simp
  next
    case False
    then show ?thesis
      using append_ops_other[OF False, of "store(path \<mapsto> [])" "take j pieces"]
      unfolding interrupted_def t by simp
  qed
qed

text \<open>
  Claim C4 as it is written fails at the first interruption point: after the open the
  tracking file is empty, which is neither the previous text nor the new one; after the
  first piece it holds a part of the new text.
\<close>

theorem persist_in_place_counterexample:
  "interrupted [tracking_pfad \<mapsto> alter_text] (persist_ops tracking_pfad neue_pieces) 1
     tracking_pfad = Some [] \<and>
   interrupted [tracking_pfad \<mapsto> alter_text] (persist_ops tracking_pfad neue_pieces) 2
     tracking_pfad = Some ''{status: '' \<and>
   interrupted [tracking_pfad \<mapsto> alter_text] (persist_ops tracking_pfad neue_pieces) 0
     tracking_pfad = Some ''{status: initialized}'' \<and>
   interrupted [tracking_pfad \<mapsto> alter_text] (persist_ops tracking_pfad neue_pieces) 3
     tracking_pfad = Some ''{status: active}''"
  by (simp add: interrupted_def persist_ops_def neue_pieces_def alter_text_def
      numeral_2_eq_2 numeral_3_eq_3)

section \<open>The image name: its shape\<close>



lemma collapse_length: "length (collapse_underscores xs) \<le> length xs"
  by (induction xs rule: collapse_underscores.induct) auto























end
